theory Spec2Isabelle
  imports Main "HOL-Library.Sublist" "HOL-Library.AList"
begin

section \<open>Strings and paths\<close>

text \<open>
  Python strings are modelled as \<open>string\<close> (a list of characters). Characters are taken
  to be ASCII: \<open>str.lower\<close> maps \<open>A\<close>..\<open>Z\<close> to \<open>a\<close>..\<open>z\<close> and leaves every other
  character alone; \<open>str.strip\<close> removes the ASCII white space of \<open>str.isspace\<close>.
  Payloads (\<open>bytes\<close>) are strings too.
\<close>

type_synonym bytes = string

definition lower_char :: "char \<Rightarrow> char" where
  "lower_char c =
     (case map_of (zip ''ABCDEFGHIJKLMNOPQRSTUVWXYZ'' ''abcdefghijklmnopqrstuvwxyz'') c of
        None \<Rightarrow> c
      | Some l \<Rightarrow> l)"

definition lower :: "string \<Rightarrow> string" where
  "lower s = map lower_char s"

definition isspace :: "char \<Rightarrow> bool" where
  "isspace c = (let n = (of_char c :: nat) in (9 \<le> n \<and> n \<le> 13) \<or> (28 \<le> n \<and> n \<le> 32))"

definition strip :: "string \<Rightarrow> string" where
  "strip s = rev (dropWhile isspace (rev (dropWhile isspace s)))"

text \<open>
  \<open>Path.read_text\<close> opens the file in text mode with universal newlines: a carriage
  return, alone or followed by a line feed, is read as one line feed.
\<close>

fun universal_newlines :: "string \<Rightarrow> string" where
  "universal_newlines [] = []"
| "universal_newlines [c] = (if c = CHR 0x0D then [CHR 0x0A] else [c])"
| "universal_newlines (c # c' # cs) =
     (if c = CHR 0x0D
      then (if c' = CHR 0x0A then CHR 0x0A # universal_newlines cs
            else CHR 0x0A # universal_newlines (c' # cs))
      else c # universal_newlines (c' # cs))"

text \<open>\<open>a in b\<close> on strings is \<^const>\<open>sublist\<close>, \<open>b.startswith(a)\<close> is \<^const>\<open>prefix\<close> and
  \<open>b.endswith(a)\<close> is \<^const>\<open>suffix\<close>.\<close>

fun split_on :: "char \<Rightarrow> string \<Rightarrow> string list" where
  "split_on c [] = [[]]"
| "split_on c (x # xs) =
     (if x = c then [] # split_on c xs
      else (case split_on c xs of
              [] \<Rightarrow> [[x]]
            | w # ws \<Rightarrow> (x # w) # ws))"

text \<open>
  \<open>Path(p).name\<close> for a POSIX path: the last component, where empty components and
  \<open>.\<close> are dropped when the path is parsed; \<open>''''\<close> when there is none.
\<close>

definition path_parts :: "string \<Rightarrow> string list" where
  "path_parts p = filter (\<lambda>x. x \<noteq> [] \<and> x \<noteq> ''.'') (split_on (CHR ''/'') p)"

definition path_name :: "string \<Rightarrow> string" where
  "path_name p = (case rev (path_parts p) of [] \<Rightarrow> [] | x # _ \<Rightarrow> x)"

text \<open>
  \<open>Path.suffix\<close> of a file name: with \<open>i\<close> the index of the last dot, the name from
  \<open>i\<close> on when \<open>0 < i < len(name) - 1\<close>, and the empty string otherwise.
\<close>

definition path_suffix :: "string \<Rightarrow> string" where
  "path_suffix name =
     (if CHR ''.'' \<notin> set name then []
      else (let i = length name - length (takeWhile (\<lambda>c. c \<noteq> CHR ''.'') (rev name)) - 1
            in if 0 < i \<and> i + 1 < length name then drop i name else []))"

text \<open>
  Joining and resolving paths. \<open>base / p\<close> is \<open>p\<close> when \<open>p\<close> is absolute. The components
  \<open>..\<close> are resolved on the text of the path (symbolic links are outside the model);
  at the root, \<open>..\<close> stays at the root. \<open>abs_parts base p\<close> is the list of the names from
  the root down to \<open>base / p\<close>, for an absolute \<open>base\<close>.
\<close>

definition is_absolute :: "string \<Rightarrow> bool" where
  "is_absolute p = (take 1 p = ''/'')"

fun resolve_dotdot :: "string list \<Rightarrow> string list \<Rightarrow> string list" where
  "resolve_dotdot [] seen = rev seen"
| "resolve_dotdot (c # cs) seen =
     (if c = ''..'' then resolve_dotdot cs (tl seen) else resolve_dotdot cs (c # seen))"

definition abs_parts :: "string \<Rightarrow> string \<Rightarrow> string list" where
  "abs_parts base p =
     resolve_dotdot (if is_absolute p then path_parts p else path_parts base @ path_parts p) []"

text \<open>
  \<open>urllib.request.Request(url)\<close> raises \<open>ValueError\<close> (unknown url type) when the URL
  has no type. The constructor unwraps the URL (\<open>urllib.parse.unwrap\<close>), cuts the
  fragment after the last \<open>#\<close> (\<open>_splittag\<close>) and reads the type with \<open>_splittype\<close>: the
  URL must start with one or more characters other than \<open>/\<close> and \<open>:\<close>, followed by \<open>:\<close>.
\<close>

definition unwrap :: "string \<Rightarrow> string" where
  "unwrap u =
     (let u1 = strip u;
          u2 = (if take 1 u1 = ''<'' \<and> take 1 (rev u1) = ''>''
                then strip (butlast (tl u1)) else u1)
      in if take 4 u2 = ''URL:'' then strip (drop 4 u2) else u2)"

definition splittag_path :: "string \<Rightarrow> string" where
  "splittag_path u =
     (if CHR ''#'' \<in> set u then rev (tl (dropWhile (\<lambda>c. c \<noteq> CHR ''#'') (rev u))) else u)"

definition has_url_type :: "string \<Rightarrow> bool" where
  "has_url_type u =
     (let scheme = takeWhile (\<lambda>c. c \<noteq> CHR ''/'' \<and> c \<noteq> CHR '':'') u
      in scheme \<noteq> [] \<and> take 1 (drop (length scheme) u) = '':'')"

definition request_ok :: "string \<Rightarrow> bool" where
  "request_ok u = has_url_type (splittag_path (unwrap u))"

section \<open>Configuration and the content filter\<close>

text \<open>A dictionary with string keys and values, as parsed from JSON.\<close>

type_synonym dict = "(string \<times> string) list"

record config =
  modpack_id :: string
  instance_dir :: string
  perm_user :: "string option"
  perm_group :: "string option"
  preserved_mods :: "string list"
  client_only_mods :: "string list"

text \<open>
  The loop shared by \<open>_is_client_only\<close> and \<open>_is_preserved\<close>:
  \<^verbatim>\<open>for pattern in patterns: if pattern.lower() in filename_lower: return True\<close>,
  then \<^verbatim>\<open>return False\<close>.
\<close>

fun pattern_loop :: "string list \<Rightarrow> string \<Rightarrow> bool" where
  "pattern_loop [] filename_lower = False"
| "pattern_loop (pattern # rest) filename_lower =
     (if sublist (lower pattern) filename_lower then True
      else pattern_loop rest filename_lower)"

text \<open>
  \<open>ModpackInstaller._is_client_only\<close> (an Isabelle name cannot start with an
  underscore). \<open>env\<close> is \<open>Optional[dict]\<close>; \<^verbatim>\<open>if env and ...\<close> is false for \<open>None\<close> and
  for the empty dictionary.
\<close>

definition is_client_only :: "config \<Rightarrow> string \<Rightarrow> dict option \<Rightarrow> bool" where
  "is_client_only cfg filename env =
     (if (case env of
            None \<Rightarrow> False
          | Some d \<Rightarrow> d \<noteq> [] \<and> map_of d ''server'' = Some ''unsupported'')
      then True
      else pattern_loop (client_only_mods cfg) (lower filename))"

text \<open>\<open>ModpackInstaller._is_preserved\<close>.\<close>

definition is_preserved :: "config \<Rightarrow> string \<Rightarrow> bool" where
  "is_preserved cfg filename = pattern_loop (preserved_mods cfg) (lower filename)"

section \<open>The file system and the network\<close>

text \<open>
  A directory is the list of its entries, in the order \<open>iterdir\<close> yields them; an
  entry is a regular file with its content or a directory. Looking a name up is
  \<^const>\<open>map_of\<close>, writing a file is \<^const>\<open>AList.update\<close>, removing an entry is
  \<^const>\<open>AList.delete\<close>. Symbolic links, ownership and permissions are outside the
  model, so \<open>_fix_permissions\<close> has no effect on it.
\<close>

datatype node = File bytes | Dir "(string \<times> node) list"

type_synonym dir = "(string \<times> node) list"

fun is_file :: "node \<Rightarrow> bool" where
  "is_file (File _) = True"
| "is_file (Dir _) = False"

text \<open>The exceptions and fatal exits of the installer.\<close>

datatype error =
    ApiRequestFailed
  | NoVersions
  | NoMrpackFile
  | ArchiveDownloadFailed
  | MissingIndex
  | BadZipFile
  | JSONDecodeError
  | KeyError
  | IndexError
  | FileExistsError
  | FileNotFoundError
  | NotADirectoryError
  | IsADirectoryError
  | ValueError

text \<open>
  A version of the registry's answer, and an entry of \<open>modrinth.index.json\<close>. A field
  read with \<open>.get\<close> is optional; \<open>path\<close> and \<open>downloads\<close> are read with \<open>[...]\<close>, which
  raises \<open>KeyError\<close> when the key is absent. The fields \<open>filename\<close> and \<open>url\<close> of a
  version's file are \<open>vf_filename\<close> and \<open>vf_url\<close>, and an entry's \<open>env\<close> is \<open>entry_env\<close>.
\<close>

record version_file =
  vf_filename :: string
  vf_url :: string

record version =
  version_id :: string
  version_number :: string
  files :: "version_file list"

record manifest_entry =
  path :: "string option"
  entry_env :: "dict option"
  downloads :: "string list option"
  fileSize :: "int option"
  hashes :: "dict option"

text \<open>
  What the installer reads from outside: the registry's version list (\<open>None\<close> when the
  request fails), the payload behind a URL (\<open>None\<close> when \<open>urlopen\<close> or \<open>read\<close> raises),
  the two digests of \<open>hashlib\<close> as hexadecimal strings, the content of the directory
  \<open>extracted\<close> after \<open>ZipFile(mrpack_path).extractall\<close> for the archive's file name and
  bytes (\<open>None\<close> when \<open>ZipFile\<close> raises; the file name matters when it lies below
  \<open>extracted\<close>), and \<open>json.load\<close> of the index followed by \<open>index.get("files", [])\<close>
  (\<open>None\<close> when it raises). \<open>tmpdir\<close> is the absolute path of the directory that
  \<open>tempfile.TemporaryDirectory\<close> creates, \<open>cwd\<close> the absolute path of the working
  directory, and \<open>outside_writable\<close> says whether the archive can be written under a
  file name that leads to a place outside the instance directory (the temporary
  directory included).
\<close>

record world =
  versions :: "version list option"
  fetch :: "string \<Rightarrow> bytes option"
  sha512 :: "bytes \<Rightarrow> string"
  sha1 :: "bytes \<Rightarrow> string"
  unzip :: "string \<Rightarrow> bytes \<Rightarrow> dir option"
  parse_index :: "bytes \<Rightarrow> manifest_entry list option"
  tmpdir :: string
  cwd :: string
  outside_writable :: "string \<Rightarrow> bool"

text \<open>
  The state a run changes: the content of the instance directory, and the URLs that
  \<open>_download_file\<close> has requested so far.
\<close>

record state =
  target :: dir
  requests :: "string list"

section \<open>The verified fetcher\<close>

text \<open>
  \<open>dest.write_bytes(data)\<close> for \<open>dest = parent / name\<close>, where \<open>parent\<close> exists: it
  raises when \<open>dest\<close> is a directory.
\<close>

definition write_bytes :: "dir \<Rightarrow> string \<Rightarrow> bytes \<Rightarrow> dir option" where
  "write_bytes d name data =
     (if name = [] \<or> name = ''.'' \<or> name = ''..'' then None
      else (case map_of d name of
              Some (Dir _) \<Rightarrow> None
            | _ \<Rightarrow> Some (AList.update name (File data) d)))"

text \<open>Lines 110 to 120: the hash check; \<open>True\<close> when no mismatch is found.\<close>

definition verify_hash :: "world \<Rightarrow> dict option \<Rightarrow> bytes \<Rightarrow> bool" where
  "verify_hash w expected_hashes data =
     (case expected_hashes of
        None \<Rightarrow> True
      | Some h \<Rightarrow>
          if h = [] then True
          else (case map_of h ''sha512'' of
                  Some expected \<Rightarrow> sha512 w data = expected
                | None \<Rightarrow>
                    (case map_of h ''sha1'' of
                       Some expected \<Rightarrow> sha1 w data = expected
                     | None \<Rightarrow> True)))"

text \<open>
  Where \<open>dest\<close> lies, seen from the directory whose content the state holds: below it,
  under the directories \<open>parents\<close> (from the top down) with the file name \<open>name\<close>; or
  outside it, and then the flag says whether the file can be written there.
\<close>

datatype dest = Below "string list" string | Outside bool

text \<open>
  \<open>dest.parent.mkdir(parents=True, exist_ok=True)\<close>: the missing directories are
  created; it raises, and creates nothing, when a regular file is in the way.
\<close>

fun mkdir_parents :: "dir \<Rightarrow> string list \<Rightarrow> dir option" where
  "mkdir_parents d [] = Some d"
| "mkdir_parents d (c # cs) =
     (case map_of d c of
        None \<Rightarrow> map_option (\<lambda>sub. AList.update c (Dir sub) d) (mkdir_parents [] cs)
      | Some (Dir sub) \<Rightarrow> map_option (\<lambda>sub'. AList.update c (Dir sub') d) (mkdir_parents sub cs)
      | Some (File _) \<Rightarrow> None)"

text \<open>\<open>dest.write_bytes(data)\<close> below the directories \<open>parents\<close>.\<close>

fun write_at :: "dir \<Rightarrow> string list \<Rightarrow> string \<Rightarrow> bytes \<Rightarrow> dir option" where
  "write_at d [] name data = write_bytes d name data"
| "write_at d (c # cs) name data =
     (case map_of d c of
        Some (Dir sub) \<Rightarrow>
          map_option (\<lambda>sub'. AList.update c (Dir sub') d) (write_at sub cs name data)
      | _ \<Rightarrow> None)"

text \<open>
  Lines 122 and 123: \<open>mkdir\<close>, then \<open>write_bytes\<close>. The boolean is false when one of them
  raises; the directories that \<open>mkdir\<close> has created stay.
\<close>

definition persist :: "dir \<Rightarrow> dest \<Rightarrow> bytes \<Rightarrow> bool \<times> dir" where
  "persist d dst data =
     (case dst of
        Outside writable \<Rightarrow> (writable, d)
      | Below parents name \<Rightarrow>
          (case mkdir_parents d parents of
             None \<Rightarrow> (False, d)
           | Some d1 \<Rightarrow>
               (case write_at d1 parents name data of
                  None \<Rightarrow> (False, d1)
                | Some d2 \<Rightarrow> (True, d2))))"

text \<open>
  \<open>ModpackInstaller._download_file\<close>. It works on the content \<open>d\<close> of a directory
  and the request log, and returns its boolean with both. Line 99 builds the
  \<open>Request\<close> before the \<open>try\<close>: its \<open>ValueError\<close> is not caught and leaves the function.
  \<^verbatim>\<open>if expected_size and ...\<close> is false for \<open>None\<close> and for \<open>0\<close>. Every exception
  inside the \<open>try\<close> gives \<open>False\<close>.
\<close>

definition download_file ::
  "world \<Rightarrow> string \<Rightarrow> dest \<Rightarrow> int option \<Rightarrow> dict option \<Rightarrow> dir \<times> string list
     \<Rightarrow> error + (bool \<times> dir \<times> string list)" where
  "download_file w u dst expected_size expected_hashes st =
     (if \<not> request_ok u then Inl ValueError
      else Inr
        (case st of (d, log) \<Rightarrow>
           (case fetch w u of
              None \<Rightarrow> (False, d, log @ [u])
            | Some data \<Rightarrow>
                if (case expected_size of
                      None \<Rightarrow> False
                    | Some n \<Rightarrow> n \<noteq> 0 \<and> int (length data) \<noteq> n)
                then (False, d, log @ [u])
                else if \<not> verify_hash w expected_hashes data then (False, d, log @ [u])
                else (case persist d dst data of
                        (ok, d') \<Rightarrow> (ok, d', log @ [u])))))"

section \<open>Classifying the manifest and running the downloads\<close>

text \<open>A queued download: URL, file name, declared size, hashes.\<close>

type_synonym task = "string \<times> string \<times> int option \<times> dict"

text \<open>
  Lines 286 to 311 of \<open>install\<close>: the loop over the manifest's entries, with
  \<open>mods_to_download\<close>, \<open>skipped_client\<close> and \<open>skipped_other\<close> as accumulators.
\<close>

fun process_files ::
  "config \<Rightarrow> manifest_entry list \<Rightarrow> task list \<Rightarrow> nat \<Rightarrow> nat
     \<Rightarrow> error + (task list \<times> nat \<times> nat)" where
  "process_files cfg [] mods_to_download skipped_client skipped_other =
     Inr (mods_to_download, skipped_client, skipped_other)"
| "process_files cfg (file_entry # rest) mods_to_download skipped_client skipped_other =
     (case path file_entry of
        None \<Rightarrow> Inl KeyError
      | Some file_path \<Rightarrow>
          if \<not> prefix ''mods/'' file_path
          then process_files cfg rest mods_to_download skipped_client (skipped_other + 1)
          else if is_client_only cfg (path_name file_path)
                    (Some (case entry_env file_entry of None \<Rightarrow> [] | Some e \<Rightarrow> e))
          then process_files cfg rest mods_to_download (skipped_client + 1) skipped_other
          else (case downloads file_entry of
                  None \<Rightarrow> Inl KeyError
                | Some [] \<Rightarrow> Inl IndexError
                | Some (download_url # _) \<Rightarrow>
                    process_files cfg rest
                      (mods_to_download @
                         [(download_url, path_name file_path, fileSize file_entry,
                           (case hashes file_entry of None \<Rightarrow> [] | Some h \<Rightarrow> h))])
                      skipped_client skipped_other))"

text \<open>
  Lines 314 to 331 of \<open>install\<close>: every queued task is submitted to the pool, with
  \<open>dest = self.mods_dir / filename\<close>, and its boolean result counted; \<open>future.result()\<close>
  raises again what the task has raised, which ends the loop. The model runs the tasks
  one after the other in the order of the queue, on the content of the mods directory;
  \<open>downloaded\<close> and \<open>failed\<close> are the two counters.
\<close>

fun download_batch ::
  "world \<Rightarrow> task list \<Rightarrow> dir \<times> string list \<Rightarrow> nat \<Rightarrow> nat
     \<Rightarrow> error + (nat \<times> nat \<times> dir \<times> string list)" where
  "download_batch w [] st downloaded failed = Inr (downloaded, failed, st)"
| "download_batch w ((u, name, file_size, file_hashes) # rest) st downloaded failed =
     (case download_file w u (Below [] name) file_size (Some file_hashes) st of
        Inl e \<Rightarrow> Inl e
      | Inr (True, st') \<Rightarrow> download_batch w rest st' (downloaded + 1) failed
      | Inr (False, st') \<Rightarrow> download_batch w rest st' downloaded (failed + 1))"

section \<open>Cleaning the mods directory\<close>

text \<open>
  The loop of \<open>clean_mods\<close> over the listing of the mods directory; \<open>d\<close> is the
  directory as the loop changes it, and \<open>file.unlink()\<close> removes the entry of that name.
\<close>

fun clean_loop :: "config \<Rightarrow> bool \<Rightarrow> (string \<times> node) list \<Rightarrow> dir \<Rightarrow> dir" where
  "clean_loop cfg keep_preserved [] d = d"
| "clean_loop cfg keep_preserved ((name, file) # rest) d =
     (if is_file file \<and> path_suffix name = ''.jar''
      then (if keep_preserved \<and> is_preserved cfg name
            then clean_loop cfg keep_preserved rest d
            else clean_loop cfg keep_preserved rest (AList.delete name d))
      else clean_loop cfg keep_preserved rest d)"

text \<open>
  \<open>ModpackInstaller.clean_mods\<close> on the instance directory: nothing when \<open>mods\<close> does
  not exist; \<open>iterdir\<close> raises when \<open>mods\<close> is a regular file.
\<close>

definition clean_mods :: "config \<Rightarrow> bool \<Rightarrow> dir \<Rightarrow> error + dir" where
  "clean_mods cfg keep_preserved inst =
     (case map_of inst ''mods'' of
        None \<Rightarrow> Inr inst
      | Some (File _) \<Rightarrow> Inl NotADirectoryError
      | Some (Dir ms) \<Rightarrow>
          Inr (AList.update ''mods'' (Dir (clean_loop cfg keep_preserved ms ms)) inst))"

section \<open>Merging the override trees\<close>

text \<open>
  \<open>shutil.copy2(src, dest)\<close> for a regular file \<open>src\<close> named \<open>name\<close> and
  \<open>dest = parent / name\<close>: when \<open>dest\<close> is a directory the file is copied into it under
  its own name (and that raises when a directory of this name is there); otherwise
  \<open>dest\<close> is written.
\<close>

definition copy2 :: "bytes \<Rightarrow> string \<Rightarrow> dir \<Rightarrow> error + dir" where
  "copy2 data name parent =
     (case map_of parent name of
        Some (Dir sub) \<Rightarrow>
          (case map_of sub name of
             Some (Dir _) \<Rightarrow> Inl IsADirectoryError
           | _ \<Rightarrow> Inr (AList.update name (Dir (AList.update name (File data) sub)) parent))
      | _ \<Rightarrow> Inr (AList.update name (File data) parent))"

text \<open>
  \<open>shutil.copy2(mod_file, self.mods_dir / name)\<close> on the instance directory: the copy
  goes into the target mods directory, which must be there.
\<close>

definition copy_to_mods :: "bytes \<Rightarrow> string \<Rightarrow> dir \<Rightarrow> error + dir" where
  "copy_to_mods data name inst =
     (case map_of inst ''mods'' of
        None \<Rightarrow> Inl FileNotFoundError
      | Some (File _) \<Rightarrow> Inl NotADirectoryError
      | Some (Dir ms) \<Rightarrow>
          (case copy2 data name ms of
             Inl e \<Rightarrow> Inl e
           | Inr ms' \<Rightarrow> Inr (AList.update ''mods'' (Dir ms') inst)))"

text \<open>
  Lines 346 to 358: the loop over \<open>override_src / "mods"\<close>, copying into the mods
  directory of the instance \<open>inst\<close>, with the counters \<open>override_mods\<close> and
  \<open>override_skipped\<close>.
\<close>

fun copy_override_mods ::
  "config \<Rightarrow> (string \<times> node) list \<Rightarrow> dir \<Rightarrow> nat \<Rightarrow> nat \<Rightarrow> error + (dir \<times> nat \<times> nat)" where
  "copy_override_mods cfg [] inst override_mods override_skipped =
     Inr (inst, override_mods, override_skipped)"
| "copy_override_mods cfg ((name, mod_file) # rest) inst override_mods override_skipped =
     (case mod_file of
        Dir _ \<Rightarrow> copy_override_mods cfg rest inst override_mods override_skipped
      | File data \<Rightarrow>
          if path_suffix name \<noteq> ''.jar''
          then copy_override_mods cfg rest inst override_mods override_skipped
          else if is_client_only cfg name None
          then copy_override_mods cfg rest inst override_mods (override_skipped + 1)
          else (case copy_to_mods data name inst of
                  Inl e \<Rightarrow> Inl e
                | Inr inst' \<Rightarrow>
                    copy_override_mods cfg rest inst' (override_mods + 1) override_skipped))"

text \<open>
  Lines 361 to 373: the loop over the other entries of an override root. A directory
  replaces the target of its name: \<open>shutil.rmtree\<close> when the target exists (it raises on
  a regular file), then \<open>shutil.copytree\<close>. A regular file is copied with \<open>copy2\<close>.
\<close>

fun merge_items :: "(string \<times> node) list \<Rightarrow> dir \<Rightarrow> error + dir" where
  "merge_items [] inst = Inr inst"
| "merge_items ((name, item) # rest) inst =
     (if name = ''mods'' then merge_items rest inst
      else (case item of
              Dir content \<Rightarrow>
                (case map_of inst name of
                   Some (File _) \<Rightarrow> Inl NotADirectoryError
                 | Some (Dir _) \<Rightarrow>
                     merge_items rest (AList.update name (Dir content) (AList.delete name inst))
                 | None \<Rightarrow> merge_items rest (AList.update name (Dir content) inst))
            | File data \<Rightarrow>
                (case copy2 data name inst of
                   Inl e \<Rightarrow> Inl e
                 | Inr inst' \<Rightarrow> merge_items rest inst')))"

text \<open>
  The body of the loop over the two override roots (lines 341 to 373) for one root,
  \<open>override_src\<close> being what the extracted archive holds under that name.
\<close>

definition merge_root ::
  "config \<Rightarrow> node option \<Rightarrow> dir \<times> nat \<times> nat \<Rightarrow> error + (dir \<times> nat \<times> nat)" where
  "merge_root cfg override_src acc =
     (case acc of (inst, override_mods, override_skipped) \<Rightarrow>
        (case override_src of
           None \<Rightarrow> Inr acc
         | Some (File _) \<Rightarrow> Inl NotADirectoryError
         | Some (Dir items) \<Rightarrow>
             (case (case map_of items ''mods'' of
                      None \<Rightarrow> Inr acc
                    | Some (File _) \<Rightarrow> Inl NotADirectoryError
                    | Some (Dir mod_files) \<Rightarrow>
                        copy_override_mods cfg mod_files inst
                          override_mods override_skipped) of
                Inl e \<Rightarrow> Inl e
              | Inr (inst1, om, os) \<Rightarrow>
                  (case merge_items items inst1 of
                     Inl e \<Rightarrow> Inl e
                   | Inr inst2 \<Rightarrow> Inr (inst2, om, os)))))"

text \<open>Lines 334 to 373: \<open>overrides\<close> first, then \<open>server-overrides\<close>.\<close>

definition merge_overrides :: "config \<Rightarrow> dir \<Rightarrow> dir \<Rightarrow> error + (dir \<times> nat \<times> nat)" where
  "merge_overrides cfg extract_dir inst =
     (case merge_root cfg (map_of extract_dir ''overrides'') (inst, 0, 0) of
        Inl e \<Rightarrow> Inl e
      | Inr acc \<Rightarrow> merge_root cfg (map_of extract_dir ''server-overrides'') acc)"

section \<open>The sync engine\<close>

text \<open>\<open>get_latest_version\<close>: both failures end the process with \<open>sys.exit(1)\<close>.\<close>

definition get_latest_version :: "world \<Rightarrow> error + version" where
  "get_latest_version w =
     (case versions w of
        None \<Rightarrow> Inl ApiRequestFailed
      | Some [] \<Rightarrow> Inl NoVersions
      | Some (v # _) \<Rightarrow> Inr v)"

text \<open>
  \<open>get_installed_version\<close>: \<open>read_text\<close> raises when the marker is a directory, and
  reads the file with universal newlines.
\<close>

definition get_installed_version :: "dir \<Rightarrow> error + string option" where
  "get_installed_version inst =
     (case map_of inst ''.modpack_version'' of
        None \<Rightarrow> Inr None
      | Some (File content) \<Rightarrow> Inr (Some (strip (universal_newlines content)))
      | Some (Dir _) \<Rightarrow> Inl IsADirectoryError)"

text \<open>\<open>_save_version\<close>: \<open>write_text\<close> raises when the marker is a directory.\<close>

definition save_version :: "string \<Rightarrow> dir \<Rightarrow> error + dir" where
  "save_version vid inst =
     (case map_of inst ''.modpack_version'' of
        Some (Dir _) \<Rightarrow> Inl IsADirectoryError
      | _ \<Rightarrow> Inr (AList.update ''.modpack_version'' (File vid) inst))"

text \<open>Lines 246 to 250: the first file of the version whose name ends in \<open>.mrpack\<close>.\<close>

fun find_mrpack :: "version_file list \<Rightarrow> version_file option" where
  "find_mrpack [] = None"
| "find_mrpack (f # rest) =
     (if suffix ''.mrpack'' (vf_filename f) then Some f else find_mrpack rest)"

text \<open>\<open>self.mods_dir.mkdir(parents=True, exist_ok=True)\<close>.\<close>

definition mkdir_mods :: "dir \<Rightarrow> error + dir" where
  "mkdir_mods inst =
     (case map_of inst ''mods'' of
        None \<Rightarrow> Inr (AList.update ''mods'' (Dir []) inst)
      | Some (Dir _) \<Rightarrow> Inr inst
      | Some (File _) \<Rightarrow> Inl FileExistsError)"

text \<open>The counts of the summary that \<open>install\<close> prints.\<close>

record summary =
  downloaded :: nat
  from_overrides :: nat
  skipped_client_only :: nat
  skipped_other_files :: nat
  failed_downloads :: nat

text \<open>
  How a run of \<open>install\<close> ends: \<open>Exit\<close> is \<open>sys.exit(1)\<close> after a message, with the
  state it leaves; \<open>Uncaught\<close> is an exception that no handler catches (the state it
  leaves is not modelled); \<open>AlreadyInstalled\<close> is the early return of line 241;
  \<open>Complete\<close> is the normal end, with the summary.
\<close>

datatype result =
    Exit error state
  | Uncaught error
  | AlreadyInstalled state
  | Complete summary state

text \<open>
  \<open>mrpack_path = tmpdir / mrpack_file["filename"]\<close>, seen from the instance directory.
  The file name comes from the registry as it is: an absolute name, or one with \<open>..\<close>,
  can lead into the instance directory. A name that leads to the instance directory
  itself cannot be written.
\<close>

definition archive_dest :: "config \<Rightarrow> world \<Rightarrow> string \<Rightarrow> dest" where
  "archive_dest cfg w name =
     (let full = abs_parts (tmpdir w) name;
          inst = abs_parts (cwd w) (instance_dir cfg)
      in if full = inst then Outside False
         else if prefix inst full
         then Below (butlast (drop (length inst) full)) (last full)
         else Outside (outside_writable w name))"

text \<open>
  Lines 257 to 277 of \<open>install\<close>, once the archive \<open>mrpack_file\<close> is chosen: fetch it,
  extract it and read the index. \<open>ZipFile(mrpack_path)\<close> reads the file that the download
  has just written, which holds the payload of the URL. The result is the way the run
  ends here, or the extracted directory, the entries of the index, and the instance
  directory and request log after the download.
\<close>

definition open_archive ::
  "config \<Rightarrow> world \<Rightarrow> version_file \<Rightarrow> state
     \<Rightarrow> result + (dir \<times> manifest_entry list \<times> dir \<times> string list)" where
  "open_archive cfg w mrpack_file s =
     (case download_file w (vf_url mrpack_file)
             (archive_dest cfg w (vf_filename mrpack_file)) None None
             (target s, requests s) of
        Inl e \<Rightarrow> Inl (Uncaught e)
      | Inr (False, inst0, log1) \<Rightarrow>
          Inl (Exit ArchiveDownloadFailed \<lparr>target = inst0, requests = log1\<rparr>)
      | Inr (True, inst0, log1) \<Rightarrow>
          (case (case fetch w (vf_url mrpack_file) of
                   None \<Rightarrow> None
                 | Some archive \<Rightarrow> unzip w (vf_filename mrpack_file) archive) of
             None \<Rightarrow> Inl (Uncaught BadZipFile)
           | Some extract_dir \<Rightarrow>
               (case map_of extract_dir ''modrinth.index.json'' of
                  None \<Rightarrow> Inl (Exit MissingIndex \<lparr>target = inst0, requests = log1\<rparr>)
                | Some (Dir _) \<Rightarrow> Inl (Uncaught IsADirectoryError)
                | Some (File index_text) \<Rightarrow>
                    (case parse_index w index_text of
                       None \<Rightarrow> Inl (Uncaught JSONDecodeError)
                     | Some index_files \<Rightarrow> Inr (extract_dir, index_files, inst0, log1)))))"

text \<open>
  Lines 279 to 373 of \<open>install\<close>: make and clean the mods directory, classify the
  entries of the index, run the downloads, merge the overrides. The result is the
  summary with the instance directory and request log that the phases leave.
\<close>

definition sync_phases ::
  "config \<Rightarrow> world \<Rightarrow> dir \<Rightarrow> manifest_entry list \<Rightarrow> dir \<times> string list
     \<Rightarrow> error + (summary \<times> dir \<times> string list)" where
  "sync_phases cfg w extract_dir index_files st =
     (case st of (inst0, log1) \<Rightarrow>
     (case mkdir_mods inst0 of
        Inl e \<Rightarrow> Inl e
      | Inr inst1 \<Rightarrow>
     (case clean_mods cfg True inst1 of
        Inl e \<Rightarrow> Inl e
      | Inr inst2 \<Rightarrow>
     (case process_files cfg index_files [] 0 0 of
        Inl e \<Rightarrow> Inl e
      | Inr (mods_to_download, skipped_client, skipped_other) \<Rightarrow>
     (case map_of inst2 ''mods'' of
        None \<Rightarrow> Inl FileNotFoundError
      | Some (File _) \<Rightarrow> Inl NotADirectoryError
      | Some (Dir ms) \<Rightarrow>
     (case download_batch w mods_to_download (ms, log1) 0 0 of
        Inl e \<Rightarrow> Inl e
      | Inr (n_downloaded, n_failed, ms', log2) \<Rightarrow>
     (case merge_overrides cfg extract_dir (AList.update ''mods'' (Dir ms') inst2) of
        Inl e \<Rightarrow> Inl e
      | Inr (inst3, override_mods, override_skipped) \<Rightarrow>
          Inr (\<lparr>downloaded = n_downloaded,
                from_overrides = override_mods,
                skipped_client_only = skipped_client + override_skipped,
                skipped_other_files = skipped_other,
                failed_downloads = n_failed\<rparr>,
               inst3, log2))))))))"

text \<open>
  Lines 257 to 392 of \<open>install\<close>: open the archive, run the phases and then, as the
  last step, save the version.
\<close>

definition sync_archive :: "config \<Rightarrow> world \<Rightarrow> version \<Rightarrow> version_file \<Rightarrow> state \<Rightarrow> result" where
  "sync_archive cfg w latest mrpack_file s =
     (case open_archive cfg w mrpack_file s of
        Inl r \<Rightarrow> r
      | Inr (extract_dir, index_files, inst0, log1) \<Rightarrow>
          (case sync_phases cfg w extract_dir index_files (inst0, log1) of
             Inl e \<Rightarrow> Uncaught e
           | Inr (sm, inst3, log2) \<Rightarrow>
               (case save_version (version_id latest) inst3 of
                  Inl e \<Rightarrow> Uncaught e
                | Inr inst4 \<Rightarrow> Complete sm \<lparr>target = inst4, requests = log2\<rparr>)))"

text \<open>Lines 243 to 392 of \<open>install\<close>: the full synchronisation to the version \<open>latest\<close>.\<close>

definition full_sync :: "config \<Rightarrow> world \<Rightarrow> version \<Rightarrow> state \<Rightarrow> result" where
  "full_sync cfg w latest s =
     (case find_mrpack (files latest) of
        None \<Rightarrow> Exit NoMrpackFile s
      | Some mrpack_file \<Rightarrow> sync_archive cfg w latest mrpack_file s)"

text \<open>\<open>ModpackInstaller.install\<close>.\<close>

definition install :: "config \<Rightarrow> world \<Rightarrow> bool \<Rightarrow> state \<Rightarrow> result" where
  "install cfg w force s =
     (case get_latest_version w of
        Inl e \<Rightarrow> Exit e s
      | Inr latest \<Rightarrow>
          (case get_installed_version (target s) of
             Inl e \<Rightarrow> Uncaught e
           | Inr installed \<Rightarrow>
               if installed = Some (version_id latest) \<and> \<not> force then AlreadyInstalled s
               else full_sync cfg w latest s))"

text \<open>The commands of \<open>main\<close> that install: \<open>install\<close> and \<open>update\<close> run without force,
  \<open>force-update\<close> with it.\<close>

datatype command = CmdInstall | CmdUpdate | CmdForceUpdate

fun run_command :: "config \<Rightarrow> world \<Rightarrow> command \<Rightarrow> state \<Rightarrow> result" where
  "run_command cfg w CmdInstall s = install cfg w False s"
| "run_command cfg w CmdUpdate s = install cfg w False s"
| "run_command cfg w CmdForceUpdate s = install cfg w True s"

section \<open>Predicates of the specification\<close>

text \<open>
  A task whose hashes hold a \<open>sha512\<close> digest that the payload behind its URL does not
  have.
\<close>

definition sha512_mismatch :: "world \<Rightarrow> task \<Rightarrow> bool" where
  "sha512_mismatch w t =
     (case t of (u, name, file_size, file_hashes) \<Rightarrow>
        (case map_of file_hashes ''sha512'' of
           None \<Rightarrow> False
         | Some expected \<Rightarrow>
             (case fetch w u of
                None \<Rightarrow> False
              | Some data \<Rightarrow> sha512 w data \<noteq> expected)))"

text \<open>The entry \<open>name\<close> of the mods directory of an instance, if there is one.\<close>

definition mods_entry :: "dir \<Rightarrow> string \<Rightarrow> node option" where
  "mods_entry inst name =
     (case map_of inst ''mods'' of
        Some (Dir ms) \<Rightarrow> map_of ms name
      | _ \<Rightarrow> None)"

text \<open>
  The archive of the latest version, if there is one, has a file name that leads to a
  place outside the instance directory.
\<close>

definition archive_outside :: "config \<Rightarrow> world \<Rightarrow> bool" where
  "archive_outside cfg w =
     (case get_latest_version w of
        Inl _ \<Rightarrow> True
      | Inr latest \<Rightarrow>
          (case find_mrpack (files latest) of
             None \<Rightarrow> True
           | Some mrpack_file \<Rightarrow>
               (case archive_dest cfg w (vf_filename mrpack_file) of
                  Outside _ \<Rightarrow> True
                | Below _ _ \<Rightarrow> False)))"

section \<open>A concrete instance\<close>

text \<open>
  A small pack on which the model is evaluated: the manifest has a mod that downloads
  well, one whose \<open>sha512\<close> digest is wrong, a client-only mod and a resource pack;
  the archive has an override tree; the instance has an older version installed. The
  two digests are stand-ins for the real functions.
\<close>

definition example_cfg :: config where
  "example_cfg =
     \<lparr>modpack_id = ''pack'', instance_dir = ''/srv/minecraft'',
      perm_user = None, perm_group = None,
      preserved_mods = [''MyMod''], client_only_mods = [''Sodium'']\<rparr>"

definition example_index :: "manifest_entry list" where
  "example_index =
     [\<lparr>path = Some ''mods/a.jar'', entry_env = Some [(''client'', ''required''), (''server'', ''required'')],
       downloads = Some [''https://cdn/a.jar''], fileSize = Some 4,
       hashes = Some [(''sha1'', ''h1:aaaa''), (''sha512'', ''h512:aaaa'')]\<rparr>,
      \<lparr>path = Some ''mods/b.jar'', entry_env = None,
       downloads = Some [''https://cdn/b.jar''], fileSize = Some 2,
       hashes = Some [(''sha1'', ''h1:bb''), (''sha512'', ''h512:other'')]\<rparr>,
      \<lparr>path = Some ''mods/Sodium-1.0.jar'', entry_env = None,
       downloads = Some [''https://cdn/sodium.jar''], fileSize = Some 3, hashes = None\<rparr>,
      \<lparr>path = Some ''resourcepacks/r.zip'', entry_env = None,
       downloads = Some [''https://cdn/r.zip''], fileSize = None, hashes = None\<rparr>]"

definition example_archive :: dir where
  "example_archive =
     [(''modrinth.index.json'', File ''INDEX''),
      (''overrides'',
         Dir [(''mods'', Dir [(''extra.jar'', File ''ee''), (''sodium-extra.jar'', File ''se'')]),
              (''config'', Dir [(''settings.txt'', File ''new'')])])]"

definition example_world :: world where
  "example_world =
     \<lparr>versions =
        Some [\<lparr>version_id = ''v2'', version_number = ''1.1.0'',
               files = [\<lparr>vf_filename = ''notes.txt'', vf_url = ''https://cdn/notes.txt''\<rparr>,
                        \<lparr>vf_filename = ''pack.mrpack'', vf_url = ''https://cdn/pack.mrpack''\<rparr>]\<rparr>],
      fetch = map_of [(''https://cdn/pack.mrpack'', ''ZIP''),
                      (''https://cdn/a.jar'', ''aaaa''),
                      (''https://cdn/b.jar'', ''bb'')],
      sha512 = (\<lambda>data. ''h512:'' @ data),
      sha1 = (\<lambda>data. ''h1:'' @ data),
      unzip = (\<lambda>name archive. if archive = ''ZIP'' then Some example_archive else None),
      parse_index = (\<lambda>index_text. if index_text = ''INDEX'' then Some example_index else None),
      tmpdir = ''/tmp/tmpk3x9'',
      cwd = ''/opt/installer'',
      outside_writable = (\<lambda>name. True)\<rparr>"

definition example_state :: state where
  "example_state =
     \<lparr>target =
        [(''.modpack_version'', File ''v1''),
         (''mods'', Dir [(''old.jar'', File ''o''), (''MyMod-1.jar'', File ''m''),
                        (''user'', Dir [(''u.jar'', File ''u'')]), (''readme.txt'', File ''r'')]),
         (''config'', Dir [(''stale.txt'', File ''old'')])],
      requests = []\<rparr>"

section \<open>Properties of the content filter\<close>

lemma pattern_loop_iff:
  "pattern_loop ps fl = (\<exists>p \<in> set ps. sublist (lower p) fl)"
  by (induction ps) auto

text \<open>
  Claim C4. The client-only predicate is true exactly when the runtime tag says that
  the server side is unsupported (the manifest's \<open>env\<close> has \<open>server\<close> equal to
  \<open>unsupported\<close>), or the file name contains, ignoring case, one of the configured
  client-only patterns.
\<close>

theorem is_client_only_iff:
  "is_client_only cfg filename env =
     ((\<exists>d. env = Some d \<and> map_of d ''server'' = Some ''unsupported'')
      \<or> (\<exists>p \<in> set (client_only_mods cfg). sublist (lower p) (lower filename)))"
proof (cases env)
  case None
  then show ?thesis
    by (simp add: is_client_only_def pattern_loop_iff)
next
  case (Some d)
  have "map_of d ''server'' = Some ''unsupported'' \<Longrightarrow> d \<noteq> []"
    by auto
  with Some show ?thesis
    by (auto simp: is_client_only_def pattern_loop_iff)
qed

section \<open>Properties of the download batch\<close>

lemma download_file_Inl:
  "download_file w u dst sz hs st = Inl e \<Longrightarrow> e = ValueError \<and> \<not> request_ok u"
  by (simp add: download_file_def split: if_splits)

lemma download_file_Inr:
  "download_file w u dst sz hs (d, log) = Inr (ok, d', log') \<Longrightarrow>
   request_ok u \<and> log' = log @ [u]"
  by (auto simp: download_file_def split: if_splits option.splits prod.splits)

lemma download_file_returns:
  "request_ok u \<Longrightarrow> \<exists>ok d'. download_file w u dst sz hs (d, log) = Inr (ok, d', log @ [u])"
  by (auto simp: download_file_def split: option.splits prod.splits)

lemma download_batch_step:
  assumes "download_batch w ((u, name, sz, hs) # tasks) (d, log) dn fl = Inr r"
  obtains ok d1 where "download_file w u (Below [] name) sz (Some hs) (d, log) = Inr (ok, d1, log @ [u])"
    and "download_batch w tasks (d1, log @ [u]) (if ok then dn + 1 else dn) (if ok then fl else fl + 1) = Inr r"
proof (cases "download_file w u (Below [] name) sz (Some hs) (d, log)")
  case (Inl e)
  with assms show ?thesis by simp
next
  case (Inr x)
  obtain ok d1 log1 where x: "x = (ok, d1, log1)" by (cases x) auto
  from download_file_Inr[of w u "Below [] name" sz "Some hs" d log ok d1 log1] Inr x
  have l: "log1 = log @ [u]" by simp
  from assms Inr x l
  have "download_batch w tasks (d1, log @ [u]) (if ok then dn + 1 else dn)
          (if ok then fl else fl + 1) = Inr r"
    by (cases ok) simp_all
  with Inr x l that show ?thesis by simp
qed

lemma download_batch_count:
  "download_batch w tasks (d, log) dn fl = Inr (dn', fl', st') \<Longrightarrow>
   dn' + fl' = dn + fl + length tasks"
proof (induction tasks arbitrary: d log dn fl)
  case Nil
  then show ?case by simp
next
  case (Cons t tasks)
  obtain u name sz hs where t: "t = (u, name, sz, hs)" by (cases t) auto
  from Cons.prems have "download_batch w ((u, name, sz, hs) # tasks) (d, log) dn fl = Inr (dn', fl', st')"
    unfolding t .
  from download_batch_step[OF this] obtain ok d1 where
    r: "download_batch w tasks (d1, log @ [u]) (if ok then dn + 1 else dn)
          (if ok then fl else fl + 1) = Inr (dn', fl', st')"
    by blast
  from Cons.IH[OF r] show ?case by (cases ok) simp_all
qed

lemma download_batch_log:
  "download_batch w tasks (d, log) dn fl = Inr (dn', fl', d', log') \<Longrightarrow>
   log' = log @ map fst tasks"
proof (induction tasks arbitrary: d log dn fl)
  case Nil
  then show ?case by simp
next
  case (Cons t tasks)
  obtain u name sz hs where t: "t = (u, name, sz, hs)" by (cases t) auto
  from Cons.prems have "download_batch w ((u, name, sz, hs) # tasks) (d, log) dn fl = Inr (dn', fl', d', log')"
    unfolding t .
  from download_batch_step[OF this] obtain ok d1 where
    r: "download_batch w tasks (d1, log @ [u]) (if ok then dn + 1 else dn)
          (if ok then fl else fl + 1) = Inr (dn', fl', d', log')"
    by blast
  from Cons.IH[OF r] t show ?case by simp
qed

lemma download_batch_Inl:
  "download_batch w tasks st dn fl = Inl e \<Longrightarrow>
   e = ValueError \<and> (\<exists>t \<in> set tasks. \<not> request_ok (fst t))"
proof (induction tasks arbitrary: st dn fl)
  case Nil
  then show ?case by simp
next
  case (Cons t tasks)
  obtain u name sz hs where t: "t = (u, name, sz, hs)" by (cases t) auto
  show ?case
  proof (cases "download_file w u (Below [] name) sz (Some hs) st")
    case (Inl e')
    with Cons.prems t have "e' = e" by simp
    with download_file_Inl[OF Inl] t show ?thesis by simp
  next
    case (Inr x)
    obtain ok st1 where x: "x = (ok, st1)" by (cases x) auto
    from Cons.prems t Inr x obtain dn1 fl1 where
      "download_batch w tasks st1 dn1 fl1 = Inl e"
      by (cases ok) auto
    from Cons.IH[OF this] show ?thesis by auto
  qed
qed

lemma download_batch_returns:
  "\<forall>t \<in> set tasks. request_ok (fst t) \<Longrightarrow>
   \<exists>dn' fl' st'. download_batch w tasks st dn fl = Inr (dn', fl', st')"
proof (cases "download_batch w tasks st dn fl")
  case (Inl e)
  assume "\<forall>t \<in> set tasks. request_ok (fst t)"
  with download_batch_Inl[OF Inl] show ?thesis by blast
next
  case (Inr r)
  then show ?thesis by (cases r) auto
qed

lemma download_batch_raises:
  "\<exists>t \<in> set tasks. \<not> request_ok (fst t) \<Longrightarrow> download_batch w tasks st dn fl = Inl ValueError"
proof (induction tasks arbitrary: st dn fl)
  case Nil
  then show ?case by simp
next
  case (Cons t tasks)
  obtain u name sz hs where t: "t = (u, name, sz, hs)" by (cases t) auto
  obtain d log where st: "st = (d, log)" by (cases st) auto
  show ?case
  proof (cases "request_ok u")
    case False
    then show ?thesis using t by (simp add: download_file_def)
  next
    case True
    with Cons.prems t have rest: "\<exists>t \<in> set tasks. \<not> request_ok (fst t)" by auto
    from download_file_returns[OF True, of w "Below [] name" sz "Some hs" d log]
    obtain ok d' where "download_file w u (Below [] name) sz (Some hs) st = Inr (ok, d', log @ [u])"
      using st by auto
    with t Cons.IH[OF rest] show ?thesis by (cases ok) simp_all
  qed
qed

lemma batch_counts_when_requests_build:
  assumes "\<forall>t \<in> set tasks. request_ok (fst t)"
  shows "\<exists>dn fl d'. download_batch w tasks (d, log) 0 0 = Inr (dn, fl, d', log @ map fst tasks)
           \<and> dn + fl = length tasks"
proof -
  from download_batch_returns[OF assms, of w "(d, log)" 0 0]
  obtain dn fl st' where r: "download_batch w tasks (d, log) 0 0 = Inr (dn, fl, st')" by blast
  obtain d' log' where st': "st' = (d', log')" by (cases st') auto
  from r st' download_batch_count[of w tasks d log 0 0 dn fl st']
    download_batch_log[of w tasks d log 0 0 dn fl d' log']
  show ?thesis by auto
qed

text \<open>
  Claim C5. A batch of \<open>N\<close> queued tasks ends with \<open>downloaded + failed = N\<close>, every task
  giving one counted outcome whether the tasks before it failed or not. When every URL
  of the batch has a type this holds (\<open>batch_counts_when_requests_build\<close>). A task whose
  URL has no type raises \<open>ValueError\<close> in line 99, before the \<open>try\<close>, and
  \<open>future.result()\<close> raises it again: the batch then ends without counts
  (\<open>download_batch_raises\<close>), and \<open>install\<close> with it. Here the second of three tasks has
  the URL \<open>cdn/bad.jar\<close>.
\<close>

theorem batch_raises_on_untyped_url:
  "\<not> request_ok ''cdn/bad.jar''
   \<and> download_batch example_world
        [(''https://cdn/a.jar'', ''a.jar'', Some 4, []),
         (''cdn/bad.jar'', ''bad.jar'', None, []),
         (''https://cdn/b.jar'', ''b.jar'', Some 2, [])]
        ([], []) 0 0 = Inl ValueError
   \<and> install example_cfg
        (example_world\<lparr>parse_index := (\<lambda>index_text.
           Some [\<lparr>path = Some ''mods/a.jar'', entry_env = None,
                   downloads = Some [''https://cdn/a.jar''], fileSize = Some 4, hashes = None\<rparr>,
                 \<lparr>path = Some ''mods/bad.jar'', entry_env = None,
                   downloads = Some [''cdn/bad.jar''], fileSize = None, hashes = None\<rparr>,
                 \<lparr>path = Some ''mods/b.jar'', entry_env = None,
                   downloads = Some [''https://cdn/b.jar''], fileSize = Some 2, hashes = None\<rparr>])\<rparr>)
        False example_state = Uncaught ValueError"
  by code_simp

section \<open>Hash verification\<close>

lemma verify_hash_sha512:
  "map_of hs ''sha512'' = Some expected \<Longrightarrow>
   verify_hash w (Some hs) data = (sha512 w data = expected)"
  by (auto simp: verify_hash_def)

lemma download_file_hash_mismatch:
  "fetch w u = Some data \<Longrightarrow> \<not> verify_hash w hs data \<Longrightarrow>
   download_file w u dst sz hs (d, log) =
     (if request_ok u then Inr (False, d, log @ [u]) else Inl ValueError)"
  by (simp add: download_file_def)

lemma sha512_mismatch_fails:
  assumes "sha512_mismatch w (u, name, sz, hs)"
  shows "download_file w u dst sz (Some hs) (d, log) =
           (if request_ok u then Inr (False, d, log @ [u]) else Inl ValueError)"
proof -
  from assms obtain expected data where
    h: "map_of hs ''sha512'' = Some expected" and f: "fetch w u = Some data"
    and ne: "sha512 w data \<noteq> expected"
    by (auto simp: sha512_mismatch_def split: option.splits)
  from verify_hash_sha512[OF h, of w data] ne have "\<not> verify_hash w (Some hs) data" by simp
  from download_file_hash_mismatch[OF f this] show ?thesis .
qed

lemma download_batch_counts_mismatches:
  "download_batch w tasks (d, log) dn fl = Inr (dn', fl', st') \<Longrightarrow>
   fl + length (filter (sha512_mismatch w) tasks) \<le> fl'"
proof (induction tasks arbitrary: d log dn fl)
  case Nil
  then show ?case by simp
next
  case (Cons t tasks)
  obtain u name sz hs where t: "t = (u, name, sz, hs)" by (cases t) auto
  from Cons.prems have "download_batch w ((u, name, sz, hs) # tasks) (d, log) dn fl = Inr (dn', fl', st')"
    unfolding t .
  from download_batch_step[OF this] obtain ok d1 where
    f: "download_file w u (Below [] name) sz (Some hs) (d, log) = Inr (ok, d1, log @ [u])"
    and r: "download_batch w tasks (d1, log @ [u]) (if ok then dn + 1 else dn)
          (if ok then fl else fl + 1) = Inr (dn', fl', st')"
    by blast
  show ?case
  proof (cases "sha512_mismatch w t")
    case True
    with t f sha512_mismatch_fails[of w u name sz hs "Below [] name" d log]
    have "\<not> ok" by (auto split: if_splits)
    with Cons.IH[OF r] True show ?thesis by simp
  next
    case False
    with Cons.IH[OF r] show ?thesis by (cases ok) simp_all
  qed
qed



section \<open>The size check\<close>

lemma size_mismatch_fails:
  "fetch w u = Some data \<Longrightarrow> n \<noteq> 0 \<Longrightarrow> int (length data) \<noteq> n \<Longrightarrow>
   download_file w u dst (Some n) hs (d, log) =
     (if request_ok u then Inr (False, d, log @ [u]) else Inl ValueError)"
  by (simp add: download_file_def)

text \<open>
  Claim C3. A fetch with an expected size whose payload has another length fails and
  writes nothing, for every expected size, \<open>0\<close> included. For a size other than \<open>0\<close>
  that is \<open>size_mismatch_fails\<close>. For the expected size \<open>0\<close> the code does not compare:
  here a payload of four bytes is accepted and written.
\<close>

theorem size_zero_not_checked:
  "fetch example_world ''https://cdn/a.jar'' = Some ''aaaa''
   \<and> int (length ''aaaa'') \<noteq> 0
   \<and> download_file example_world ''https://cdn/a.jar'' (Below [] ''a.jar'') (Some 0) (Some []) ([], [])
     = Inr (True, [(''a.jar'', File ''aaaa'')], [''https://cdn/a.jar''])"
  by code_simp

section \<open>Properties of the clean step\<close>

lemma clean_loop_map_of:
  "map_of (clean_loop cfg keep es d) name =
     (if (\<exists>file. (name, file) \<in> set es \<and> is_file file \<and> path_suffix name = ''.jar''
            \<and> \<not> (keep \<and> is_preserved cfg name))
      then None else map_of d name)"
proof (induction es arbitrary: d)
  case Nil
  then show ?case by simp
next
  case (Cons e es)
  obtain n nd where e: "e = (n, nd)" by (cases e) auto
  show ?case
  proof (cases "is_file nd \<and> path_suffix n = ''.jar'' \<and> \<not> (keep \<and> is_preserved cfg n)")
    case True
    then have "clean_loop cfg keep (e # es) d = clean_loop cfg keep es (AList.delete n d)"
      using e by auto
    with Cons.IH[of "AList.delete n d"] True e show ?thesis
      by (auto simp: delete_conv')
  next
    case False
    then have "clean_loop cfg keep (e # es) d = clean_loop cfg keep es d"
      using e by auto
    with Cons.IH[of d] False e show ?thesis
      by auto
  qed
qed

lemma is_preserved_iff:
  "is_preserved cfg name = (\<exists>p \<in> set (preserved_mods cfg). sublist (lower p) (lower name))"
  by (simp add: is_preserved_def pattern_loop_iff)

lemma path_suffix_user: "path_suffix ''user'' = []"
  by (simp add: path_suffix_def)

lemma clean_mods_dir:
  "map_of inst ''mods'' = Some (Dir ms) \<Longrightarrow>
   clean_mods cfg keep inst = Inr (AList.update ''mods'' (Dir (clean_loop cfg keep ms ms)) inst)"
  by (simp add: clean_mods_def)

text \<open>
  Claim C7. The clean step of a sync (\<open>clean_mods\<close> with \<open>keep_preserved\<close>) leaves every
  entry of the mods directory whose name contains, ignoring case, a configured
  preserved pattern as it was, and it leaves the entry \<open>user\<close> as it was.
\<close>

theorem clean_preservation:
  assumes "map_of inst ''mods'' = Some (Dir ms)"
  shows "\<exists>ms'. clean_mods cfg True inst = Inr (AList.update ''mods'' (Dir ms') inst)
           \<and> (\<forall>p name. p \<in> set (preserved_mods cfg) \<and> sublist (lower p) (lower name)
                  \<longrightarrow> map_of ms' name = map_of ms name)
           \<and> map_of ms' ''user'' = map_of ms ''user''"
proof (intro exI conjI allI impI)
  show "clean_mods cfg True inst = Inr (AList.update ''mods'' (Dir (clean_loop cfg True ms ms)) inst)"
    by (rule clean_mods_dir[OF assms])
next
  fix p name
  assume "p \<in> set (preserved_mods cfg) \<and> sublist (lower p) (lower name)"
  then have "is_preserved cfg name"
    by (auto simp: is_preserved_iff)
  then show "map_of (clean_loop cfg True ms ms) name = map_of ms name"
    by (simp add: clean_loop_map_of)
next
  show "map_of (clean_loop cfg True ms ms) ''user'' = map_of ms ''user''"
    by (simp add: clean_loop_map_of path_suffix_user)
qed

theorem clean_preservation_witness:
  "map_of (target example_state) ''mods'' =
     Some (Dir [(''old.jar'', File ''o''), (''MyMod-1.jar'', File ''m''),
                (''user'', Dir [(''u.jar'', File ''u'')]), (''readme.txt'', File ''r'')])
   \<and> ''MyMod'' \<in> set (preserved_mods example_cfg)
   \<and> sublist (lower ''MyMod'') (lower ''MyMod-1.jar'')
   \<and> (\<exists>ms'. clean_mods example_cfg True (target example_state)
                = Inr (AList.update ''mods'' (Dir ms') (target example_state))
          \<and> map_of ms' ''MyMod-1.jar'' = Some (File ''m'')
          \<and> map_of ms' ''user'' = Some (Dir [(''u.jar'', File ''u'')]))"
proof -
  let ?ms = "[(''old.jar'', File ''o''), (''MyMod-1.jar'', File ''m''),
              (''user'', Dir [(''u.jar'', File ''u'')]), (''readme.txt'', File ''r'')]"
  have h: "map_of (target example_state) ''mods'' = Some (Dir ?ms)"
    by (simp add: example_state_def)
  have p: "''MyMod'' \<in> set (preserved_mods example_cfg)"
    by (simp add: example_cfg_def)
  have s: "sublist (lower ''MyMod'') (lower ''MyMod-1.jar'')"
    by code_simp
  from clean_preservation[OF h, where cfg = example_cfg] obtain ms' where
    c: "clean_mods example_cfg True (target example_state)
          = Inr (AList.update ''mods'' (Dir ms') (target example_state))"
    and a: "\<forall>p name. p \<in> set (preserved_mods example_cfg) \<and> sublist (lower p) (lower name)
                  \<longrightarrow> map_of ms' name = map_of ?ms name"
    and u: "map_of ms' ''user'' = map_of ?ms ''user''"
    by blast
  from a p s have "map_of ms' ''MyMod-1.jar'' = map_of ?ms ''MyMod-1.jar''"
    by blast
  then have m: "map_of ms' ''MyMod-1.jar'' = Some (File ''m'')"
    by simp
  from u have "map_of ms' ''user'' = Some (Dir [(''u.jar'', File ''u'')])"
    by simp
  with h p s c m show ?thesis
    by blast
qed

lemma distinct_map_of_mem:
  "distinct (map fst ms) \<Longrightarrow> ((name, file) \<in> set ms) = (map_of ms name = Some file)"
  by (auto dest: map_of_SomeD)

text \<open>
  Claim C10. \<open>clean_mods\<close> does nothing when the mods directory does not exist.
  Otherwise it changes nothing but the mods directory, and there it removes exactly the
  regular files whose suffix is \<open>.jar\<close> (all of them, or those that are not preserved):
  every other regular file and every subdirectory stays as it was.
\<close>

theorem clean_only_top_level_jars:
  "(map_of inst ''mods'' = None \<longrightarrow> clean_mods cfg keep inst = Inr inst)
   \<and> (map_of inst ''mods'' = Some (Dir ms) \<and> distinct (map fst ms) \<longrightarrow>
        (\<exists>ms'. clean_mods cfg keep inst = Inr (AList.update ''mods'' (Dir ms') inst)
           \<and> (\<forall>name. map_of ms' name =
                 (case map_of ms name of
                    Some (File content) \<Rightarrow>
                      if path_suffix name = ''.jar'' \<and> \<not> (keep \<and> is_preserved cfg name)
                      then None else Some (File content)
                  | other \<Rightarrow> other))))"
proof (intro conjI impI)
  assume "map_of inst ''mods'' = None"
  then show "clean_mods cfg keep inst = Inr inst"
    by (simp add: clean_mods_def)
next
  assume a: "map_of inst ''mods'' = Some (Dir ms) \<and> distinct (map fst ms)"
  then have m: "map_of inst ''mods'' = Some (Dir ms)" and d: "distinct (map fst ms)"
    by simp_all
  have "map_of (clean_loop cfg keep ms ms) name =
          (case map_of ms name of
             Some (File content) \<Rightarrow>
               if path_suffix name = ''.jar'' \<and> \<not> (keep \<and> is_preserved cfg name)
               then None else Some (File content)
           | other \<Rightarrow> other)" for name
  proof (cases "map_of ms name")
    case None
    then show ?thesis by (simp add: clean_loop_map_of)
  next
    case (Some nd)
    then have "\<And>f. ((name, f) \<in> set ms) = (f = nd)"
      using distinct_map_of_mem[OF d] by auto
    with Some show ?thesis
      by (cases nd) (simp_all add: clean_loop_map_of)
  qed
  with clean_mods_dir[OF m]
  show "\<exists>ms'. clean_mods cfg keep inst = Inr (AList.update ''mods'' (Dir ms') inst)
           \<and> (\<forall>name. map_of ms' name =
                 (case map_of ms name of
                    Some (File content) \<Rightarrow>
                      if path_suffix name = ''.jar'' \<and> \<not> (keep \<and> is_preserved cfg name)
                      then None else Some (File content)
                  | other \<Rightarrow> other))"
    by blast
qed

theorem clean_only_top_level_jars_witness:
  "map_of (target example_state) ''mods'' =
     Some (Dir [(''old.jar'', File ''o''), (''MyMod-1.jar'', File ''m''),
                (''user'', Dir [(''u.jar'', File ''u'')]), (''readme.txt'', File ''r'')])
   \<and> distinct (map fst [(''old.jar'', File ''o''), (''MyMod-1.jar'', File ''m''),
                (''user'', Dir [(''u.jar'', File ''u'')]), (''readme.txt'', File ''r'')])
   \<and> (\<exists>ms'. clean_mods example_cfg False (target example_state)
                = Inr (AList.update ''mods'' (Dir ms') (target example_state))
          \<and> map_of ms' ''old.jar'' = None
          \<and> map_of ms' ''MyMod-1.jar'' = None
          \<and> map_of ms' ''readme.txt'' = Some (File ''r'')
          \<and> map_of ms' ''user'' = Some (Dir [(''u.jar'', File ''u'')]))
   \<and> map_of [(''config'', Dir [])] ''mods'' = None
   \<and> clean_mods example_cfg False [(''config'', Dir [])] = Inr [(''config'', Dir [])]"
proof -
  let ?ms = "[(''old.jar'', File ''o''), (''MyMod-1.jar'', File ''m''),
              (''user'', Dir [(''u.jar'', File ''u'')]), (''readme.txt'', File ''r'')]"
  have h: "map_of (target example_state) ''mods'' = Some (Dir ?ms)"
    by (simp add: example_state_def)
  have d: "distinct (map fst ?ms)"
    by simp
  have n: "map_of [(''config'', Dir [])] ''mods'' = None"
    by simp
  from clean_only_top_level_jars[where inst = "[(''config'', Dir [])]" and cfg = example_cfg and keep = False] n
  have e: "clean_mods example_cfg False [(''config'', Dir [])] = Inr [(''config'', Dir [])]"
    by blast
  from clean_only_top_level_jars[where inst = "target example_state" and ms = ?ms and cfg = example_cfg and keep = False] h d
  obtain ms' where
    c: "clean_mods example_cfg False (target example_state)
          = Inr (AList.update ''mods'' (Dir ms') (target example_state))"
    and a: "\<And>name. map_of ms' name =
                 (case map_of ?ms name of
                    Some (File content) \<Rightarrow>
                      if path_suffix name = ''.jar'' \<and> \<not> (False \<and> is_preserved example_cfg name)
                      then None else Some (File content)
                  | other \<Rightarrow> other)"
    by blast
  have s1: "path_suffix ''old.jar'' = ''.jar''" by (simp add: path_suffix_def)
  have s2: "path_suffix ''MyMod-1.jar'' = ''.jar''" by (simp add: path_suffix_def)
  have s3: "path_suffix ''readme.txt'' = ''.txt''" by (simp add: path_suffix_def)
  have r1: "map_of ms' ''old.jar'' = None" using a[of "''old.jar''"] s1 by simp
  have r2: "map_of ms' ''MyMod-1.jar'' = None" using a[of "''MyMod-1.jar''"] s2 by simp
  have r3: "map_of ms' ''readme.txt'' = Some (File ''r'')" using a[of "''readme.txt''"] s3 by simp
  have r4: "map_of ms' ''user'' = Some (Dir [(''u.jar'', File ''u'')])" using a[of "''user''"] by simp
  from h d c r1 r2 r3 r4 n e show ?thesis
    by blast
qed

section \<open>Properties of the override merge\<close>

lemma copy2_other:
  "copy2 data n inst = Inr inst' \<Longrightarrow> k \<noteq> n \<Longrightarrow> map_of inst' k = map_of inst k"
  by (auto simp: copy2_def update_conv' split: option.splits node.splits)

lemma merge_items_other:
  "merge_items items inst = Inr inst' \<Longrightarrow> k \<notin> fst ` set items \<or> k = ''mods'' \<Longrightarrow>
   map_of inst' k = map_of inst k"
proof (induction items arbitrary: inst)
  case Nil
  then show ?case by simp
next
  case (Cons e items)
  obtain n item where e: "e = (n, item)" by (cases e) auto
  from Cons.prems(2) have k: "k \<notin> fst ` set items \<or> k = ''mods''" by auto
  show ?case
  proof (cases "n = ''mods''")
    case True
    with Cons.prems(1) e have "merge_items items inst = Inr inst'" by simp
    from Cons.IH[OF this k] show ?thesis .
  next
    case False
    with Cons.prems(2) e have kn: "k \<noteq> n" by auto
    show ?thesis
    proof (cases item)
      case (File data)
      with Cons.prems(1) e False obtain inst1 where
        c: "copy2 data n inst = Inr inst1" and m: "merge_items items inst1 = Inr inst'"
        by (auto split: sum.splits)
      from Cons.IH[OF m k] copy2_other[OF c kn] show ?thesis by simp
    next
      case (Dir content)
      show ?thesis
      proof (cases "map_of inst n")
        case None
        with Cons.prems(1) e False Dir
        have m: "merge_items items (AList.update n (Dir content) inst) = Inr inst'" by simp
        from Cons.IH[OF m k] kn show ?thesis by (simp add: update_conv')
      next
        case (Some old)
        with Cons.prems(1) e False Dir
        have m: "merge_items items (AList.update n (Dir content) (AList.delete n inst)) = Inr inst'"
          by (cases old) simp_all
        from Cons.IH[OF m k] kn show ?thesis by (simp add: update_conv' delete_conv')
      qed
    qed
  qed
qed

lemma merge_items_dir:
  "merge_items items inst = Inr inst' \<Longrightarrow> distinct (map fst items) \<Longrightarrow>
   (name, Dir content) \<in> set items \<Longrightarrow> name \<noteq> ''mods'' \<Longrightarrow>
   map_of inst' name = Some (Dir content)"
proof (induction items arbitrary: inst)
  case Nil
  then show ?case by simp
next
  case (Cons e items)
  obtain n item where e: "e = (n, item)" by (cases e) auto
  from Cons.prems(2) e have d: "distinct (map fst items)" and nf: "n \<notin> fst ` set items"
    by auto
  show ?case
  proof (cases "(name, Dir content) \<in> set items")
    case True
    with nf have nn: "n \<noteq> name" by force
    from Cons.prems(1) e obtain inst1 where m: "merge_items items inst1 = Inr inst'"
      by (auto split: if_splits node.splits option.splits sum.splits)
    from Cons.IH[OF m d True Cons.prems(4)] show ?thesis .
  next
    case False
    with Cons.prems(3) e have ne: "n = name" and ie: "item = Dir content" by auto
    from nf ne have k: "name \<notin> fst ` set items \<or> name = ''mods''" by simp
    show ?thesis
    proof (cases "map_of inst name")
      case None
      with Cons.prems(1,4) e ne ie
      have m: "merge_items items (AList.update name (Dir content) inst) = Inr inst'" by simp
      from merge_items_other[OF m k] show ?thesis by (simp add: update_conv')
    next
      case (Some old)
      with Cons.prems(1,4) e ne ie
      have m: "merge_items items (AList.update name (Dir content) (AList.delete name inst)) = Inr inst'"
        by (cases old) simp_all
      from merge_items_other[OF m k] show ?thesis by (simp add: update_conv')
    qed
  qed
qed

lemma merge_root_Dir:
  assumes "merge_root cfg (Some (Dir items)) (inst, om, os) = Inr (inst', om', os')"
  obtains inst1 where "merge_items items inst1 = Inr inst'"
  using assms
  by (auto simp: merge_root_def split: option.splits node.splits sum.splits prod.splits)

lemma copy_to_mods_other:
  "copy_to_mods data n inst = Inr inst' \<Longrightarrow> k \<noteq> ''mods'' \<Longrightarrow> map_of inst' k = map_of inst k"
  by (auto simp: copy_to_mods_def update_conv' split: option.splits node.splits sum.splits)

lemma copy_override_mods_other:
  "copy_override_mods cfg es inst om os = Inr (inst', om', os') \<Longrightarrow> k \<noteq> ''mods'' \<Longrightarrow>
   map_of inst' k = map_of inst k"
proof (induction es arbitrary: inst om os)
  case Nil
  then show ?case by simp
next
  case (Cons e es)
  obtain n mod_file where e: "e = (n, mod_file)" by (cases e) auto
  from Cons.prems(1) e consider
    (skip) om1 os1 where "copy_override_mods cfg es inst om1 os1 = Inr (inst', om', os')"
  | (copy) data inst1 om1 os1 where "copy_to_mods data n inst = Inr inst1"
      and "copy_override_mods cfg es inst1 om1 os1 = Inr (inst', om', os')"
    by (auto split: node.splits if_splits sum.splits)
  then show ?case
  proof cases
    case skip
    from Cons.IH[OF skip Cons.prems(2)] show ?thesis .
  next
    case copy
    from Cons.IH[OF copy(2) Cons.prems(2)] copy_to_mods_other[OF copy(1) Cons.prems(2)]
    show ?thesis by simp
  qed
qed

lemma merge_root_other:
  assumes "merge_root cfg override_src (inst, om, os) = Inr (inst', om', os')"
    and "k \<noteq> ''mods''"
    and "override_src = None \<or> (\<exists>items. override_src = Some (Dir items) \<and> k \<notin> fst ` set items)"
  shows "map_of inst' k = map_of inst k"
proof (cases override_src)
  case None
  with assms(1) show ?thesis by (simp add: merge_root_def)
next
  case (Some src)
  with assms(3) obtain items where d: "override_src = Some (Dir items)"
    and k: "k \<notin> fst ` set items" by auto
  from assms(1) d obtain inst1 om1 os1 where
    c: "(case map_of items ''mods'' of
           None \<Rightarrow> Inr (inst, om, os)
         | Some (File x) \<Rightarrow> Inl NotADirectoryError
         | Some (Dir mod_files) \<Rightarrow> copy_override_mods cfg mod_files inst om os)
        = Inr (inst1, om1, os1)"
    and i: "merge_items items inst1 = Inr inst'"
    by (auto simp: merge_root_def split: sum.splits)
  from k have "k \<notin> fst ` set items \<or> k = ''mods''" by simp
  from merge_items_other[OF i this] have a: "map_of inst' k = map_of inst1 k" .
  have "map_of inst1 k = map_of inst k"
  proof (cases "map_of items ''mods''")
    case None
    with c show ?thesis by simp
  next
    case m: (Some mods_node)
    with c obtain mod_files where
      "copy_override_mods cfg mod_files inst om os = Inr (inst1, om1, os1)"
      by (cases mods_node) simp_all
    from copy_override_mods_other[OF this assms(2)] show ?thesis .
  qed
  with a show ?thesis by simp
qed

lemma merge_root_dir:
  assumes "merge_root cfg (Some (Dir items)) (inst, om, os) = Inr (inst', om', os')"
    and "distinct (map fst items)" and "(name, Dir content) \<in> set items"
    and "name \<noteq> ''mods''"
  shows "map_of inst' name = Some (Dir content)"
proof -
  from assms(1) obtain inst1 where m: "merge_items items inst1 = Inr inst'"
    by (rule merge_root_Dir)
  from merge_items_dir[OF m assms(2) assms(3) assms(4)] show ?thesis .
qed

lemma merge_overrides_last_root_wins:
  assumes "merge_overrides cfg extract_dir inst = Inr (inst', om, os)"
    and "name \<noteq> ''mods''"
    and "distinct (map fst items)" and "(name, Dir content) \<in> set items"
    and "map_of extract_dir ''server-overrides'' = Some (Dir items)
         \<or> (map_of extract_dir ''overrides'' = Some (Dir items)
            \<and> (map_of extract_dir ''server-overrides'' = None
               \<or> (\<exists>items2. map_of extract_dir ''server-overrides'' = Some (Dir items2)
                     \<and> name \<notin> fst ` set items2)))"
  shows "map_of inst' name = Some (Dir content)"
proof -
  from assms(1) obtain inst1 om1 os1 where
    a: "merge_root cfg (map_of extract_dir ''overrides'') (inst, 0, 0) = Inr (inst1, om1, os1)"
    and b: "merge_root cfg (map_of extract_dir ''server-overrides'') (inst1, om1, os1)
              = Inr (inst', om, os)"
    by (auto simp: merge_overrides_def split: sum.splits)
  from assms(5) show ?thesis
  proof
    assume "map_of extract_dir ''server-overrides'' = Some (Dir items)"
    with b have "merge_root cfg (Some (Dir items)) (inst1, om1, os1) = Inr (inst', om, os)"
      by simp
    from merge_root_dir[OF this assms(3) assms(4) assms(2)] show ?thesis .
  next
    assume c: "map_of extract_dir ''overrides'' = Some (Dir items)
            \<and> (map_of extract_dir ''server-overrides'' = None
               \<or> (\<exists>items2. map_of extract_dir ''server-overrides'' = Some (Dir items2)
                     \<and> name \<notin> fst ` set items2))"
    with a have "merge_root cfg (Some (Dir items)) (inst, 0, 0) = Inr (inst1, om1, os1)"
      by simp
    from merge_root_dir[OF this assms(3) assms(4) assms(2)]
    have "map_of inst1 name = Some (Dir content)" .
    moreover from c merge_root_other[OF b assms(2)]
    have "map_of inst' name = map_of inst1 name" by blast
    ultimately show ?thesis by simp
  qed
qed

text \<open>
  Claim C8. For a directory entry of an override root whose name is not \<open>mods\<close>: when
  the target has a directory of that name, it is removed and then the override
  directory is copied; and after the merge of that root the target's entry of that name
  is the override directory, content for content, with nothing of the old directory
  left. The root \<open>server-overrides\<close> is merged after \<open>overrides\<close> and replaces what that
  one supplied under the same name; \<open>merge_overrides_last_root_wins\<close> is the statement
  for the merge of both roots.
\<close>

theorem override_directory_replacement:
  assumes "name \<noteq> ''mods''"
  shows "(map_of inst0 name = Some (Dir old) \<longrightarrow>
            merge_items ((name, Dir content) # rest) inst0 =
              merge_items rest (AList.update name (Dir content) (AList.delete name inst0)))
       \<and> (merge_root cfg (Some (Dir items)) (inst, om, os) = Inr (inst', om', os')
            \<and> distinct (map fst items) \<and> (name, Dir content) \<in> set items \<longrightarrow>
            map_of inst' name = Some (Dir content))"
proof (intro conjI impI)
  assume "map_of inst0 name = Some (Dir old)"
  with assms show "merge_items ((name, Dir content) # rest) inst0 =
      merge_items rest (AList.update name (Dir content) (AList.delete name inst0))"
    by simp
next
  assume a: "merge_root cfg (Some (Dir items)) (inst, om, os) = Inr (inst', om', os')
            \<and> distinct (map fst items) \<and> (name, Dir content) \<in> set items"
  then obtain inst1 where m: "merge_items items inst1 = Inr inst'"
    by (blast elim: merge_root_Dir)
  from a have d: "distinct (map fst items)" and i: "(name, Dir content) \<in> set items"
    by simp_all
  from merge_items_dir[OF m d i assms] show "map_of inst' name = Some (Dir content)" .
qed

theorem override_directory_replacement_witness:
  "''config'' \<noteq> ''mods''
   \<and> map_of [(''mods'', Dir []), (''config'', Dir [(''stale.txt'', File ''old'')])] ''config''
       = Some (Dir [(''stale.txt'', File ''old'')])
   \<and> merge_items [(''config'', Dir [(''settings.txt'', File ''new'')])]
        [(''mods'', Dir []), (''config'', Dir [(''stale.txt'', File ''old'')])]
       = Inr [(''mods'', Dir []), (''config'', Dir [(''settings.txt'', File ''new'')])]
   \<and> merge_root example_cfg
        (Some (Dir [(''mods'', Dir [(''extra.jar'', File ''ee'')]),
                    (''config'', Dir [(''settings.txt'', File ''new'')])]))
        ([(''mods'', Dir []), (''config'', Dir [(''stale.txt'', File ''old'')])], 0, 0)
       = Inr ([(''mods'', Dir [(''extra.jar'', File ''ee'')]),
               (''config'', Dir [(''settings.txt'', File ''new'')])], 1, 0)
   \<and> distinct (map fst [(''mods'', Dir [(''extra.jar'', File ''ee'')]),
                          (''config'', Dir [(''settings.txt'', File ''new'')])])
   \<and> map_of [(''mods'', Dir [(''extra.jar'', File ''ee'')]),
              (''config'', Dir [(''settings.txt'', File ''new'')])] ''config''
       = Some (Dir [(''settings.txt'', File ''new'')])"
proof -
  let ?inst0 = "[(''mods'', Dir []), (''config'', Dir [(''stale.txt'', File ''old'')])]"
  let ?items = "[(''mods'', Dir [(''extra.jar'', File ''ee'')]),
                 (''config'', Dir [(''settings.txt'', File ''new'')])]"
  let ?inst' = "[(''mods'', Dir [(''extra.jar'', File ''ee'')]),
                 (''config'', Dir [(''settings.txt'', File ''new'')])]"
  have n: "''config'' \<noteq> ''mods''" by simp
  have t: "map_of ?inst0 ''config'' = Some (Dir [(''stale.txt'', File ''old'')])" by simp
  have r: "merge_root example_cfg (Some (Dir ?items)) (?inst0, 0, 0) = Inr (?inst', 1, 0)"
    by code_simp
  have d: "distinct (map fst ?items)" by simp
  have i: "(''config'', Dir [(''settings.txt'', File ''new'')]) \<in> set ?items" by simp
  note th = override_directory_replacement[OF n,
      where inst0 = ?inst0 and old = "[(''stale.txt'', File ''old'')]"
        and content = "[(''settings.txt'', File ''new'')]" and rest = "[]"
        and cfg = example_cfg and items = ?items and inst = ?inst0 and om = 0 and os = 0
        and inst' = ?inst' and om' = 1 and os' = 0]
  from th t have s: "merge_items [(''config'', Dir [(''settings.txt'', File ''new'')])] ?inst0
       = Inr [(''mods'', Dir []), (''config'', Dir [(''settings.txt'', File ''new'')])]"
    by simp
  from th r d i have f: "map_of ?inst' ''config'' = Some (Dir [(''settings.txt'', File ''new'')])"
    by blast
  from n t s r d f show ?thesis by blast
qed

section \<open>Properties of the sync engine\<close>

lemma save_version_marker:
  "save_version vid inst = Inr inst' \<Longrightarrow>
   inst' = AList.update ''.modpack_version'' (File vid) inst
   \<and> map_of inst' ''.modpack_version'' = Some (File vid)"
  by (auto simp: save_version_def update_conv' split: option.splits node.splits)

lemma persist_outside:
  "persist d (Outside b) data = (b, d)"
  by (simp add: persist_def)

lemma download_file_outside:
  "download_file w u (Outside b) sz hs (d, log) = Inr (ok, d', log') \<Longrightarrow> d' = d"
  by (auto simp: download_file_def persist_outside split: if_splits option.splits)

lemma open_archive_Inl:
  assumes "open_archive cfg w mf s = Inl r"
  shows "(\<exists>e. r = Uncaught e)
         \<or> (\<exists>e ok inst0 log1. r = Exit e \<lparr>target = inst0, requests = log1\<rparr>
               \<and> (e = ArchiveDownloadFailed \<or> e = MissingIndex)
               \<and> download_file w (vf_url mf) (archive_dest cfg w (vf_filename mf)) None None
                    (target s, requests s) = Inr (ok, inst0, log1))"
proof (cases "download_file w (vf_url mf) (archive_dest cfg w (vf_filename mf)) None None
                (target s, requests s)")
  case (Inl e)
  with assms show ?thesis by (auto simp: open_archive_def)
next
  case (Inr x)
  obtain ok inst0 log1 where x: "x = (ok, inst0, log1)" by (cases x) auto
  from assms Inr x show ?thesis
    by (cases ok)
       (auto simp: open_archive_def split: option.splits node.splits)
qed

lemma open_archive_Inr:
  assumes "open_archive cfg w mf s = Inr (extract_dir, index_files, inst0, log1)"
  shows "download_file w (vf_url mf) (archive_dest cfg w (vf_filename mf)) None None
           (target s, requests s) = Inr (True, inst0, log1)"
proof (cases "download_file w (vf_url mf) (archive_dest cfg w (vf_filename mf)) None None
                (target s, requests s)")
  case (Inl e)
  with assms show ?thesis by (simp add: open_archive_def)
next
  case (Inr x)
  obtain ok i l where x: "x = (ok, i, l)" by (cases x) auto
  from assms Inr x show ?thesis
    by (cases ok)
       (auto simp: open_archive_def split: option.splits node.splits)
qed

lemma sync_archive_cases:
  "sync_archive cfg w latest mf s =
     (case open_archive cfg w mf s of
        Inl r \<Rightarrow> r
      | Inr (extract_dir, index_files, inst0, log1) \<Rightarrow>
          (case sync_phases cfg w extract_dir index_files (inst0, log1) of
             Inl e \<Rightarrow> Uncaught e
           | Inr (sm, inst3, log2) \<Rightarrow>
               (case map_of inst3 ''.modpack_version'' of
                  Some (Dir x) \<Rightarrow> Uncaught IsADirectoryError
                | _ \<Rightarrow> Complete sm
                    \<lparr>target = AList.update ''.modpack_version'' (File (version_id latest)) inst3,
                     requests = log2\<rparr>)))"
  by (simp add: sync_archive_def save_version_def
           split: sum.splits prod.splits option.splits node.splits)

lemma sync_archive_Complete:
  assumes "sync_archive cfg w latest mf s = Complete sm s'"
  obtains extract_dir index_files inst0 log1 inst3
  where "open_archive cfg w mf s = Inr (extract_dir, index_files, inst0, log1)"
    and "sync_phases cfg w extract_dir index_files (inst0, log1) = Inr (sm, inst3, requests s')"
    and "save_version (version_id latest) inst3 = Inr (target s')"
proof (cases "open_archive cfg w mf s")
  case (Inl r)
  with assms open_archive_Inl[OF Inl] show ?thesis
    by (auto simp: sync_archive_def)
next
  case (Inr x)
  obtain extract_dir index_files inst0 log1 where
    x: "x = (extract_dir, index_files, inst0, log1)" by (cases x) auto
  show ?thesis
  proof (cases "sync_phases cfg w extract_dir index_files (inst0, log1)")
    case (Inl e)
    with assms Inr x show ?thesis by (simp add: sync_archive_def)
  next
    case p: (Inr y)
    obtain sm1 inst3 log2 where y: "y = (sm1, inst3, log2)" by (cases y) auto
    from assms Inr x p y obtain inst4 where
      v: "save_version (version_id latest) inst3 = Inr inst4"
      and c: "Complete sm1 \<lparr>target = inst4, requests = log2\<rparr> = Complete sm s'"
      by (cases "save_version (version_id latest) inst3") (auto simp: sync_archive_def)
    from c have "sm1 = sm" and "target s' = inst4" and "requests s' = log2" by auto
    with Inr x p y v that show ?thesis by simp
  qed
qed

lemma sync_archive_not_AlreadyInstalled:
  "sync_archive cfg w latest mf s \<noteq> AlreadyInstalled r"
proof (cases "open_archive cfg w mf s")
  case (Inl x)
  with open_archive_Inl[OF Inl] show ?thesis
    by (auto simp: sync_archive_def)
next
  case (Inr x)
  then show ?thesis
    by (auto simp: sync_archive_def split: prod.splits sum.splits)
qed

lemma sync_phases_steps:
  assumes "sync_phases cfg w extract_dir index_files (inst0, log1) = Inr (sm, inst3, log2)"
  obtains inst1 inst2 tasks sc so ms dn fl ms' om os
  where "mkdir_mods inst0 = Inr inst1"
    and "clean_mods cfg True inst1 = Inr inst2"
    and "process_files cfg index_files [] 0 0 = Inr (tasks, sc, so)"
    and "map_of inst2 ''mods'' = Some (Dir ms)"
    and "download_batch w tasks (ms, log1) 0 0 = Inr (dn, fl, ms', log2)"
    and "merge_overrides cfg extract_dir (AList.update ''mods'' (Dir ms') inst2) = Inr (inst3, om, os)"
    and "downloaded sm = dn" and "failed_downloads sm = fl"
  using assms
  by (auto simp: sync_phases_def split: sum.splits prod.splits option.splits node.splits)

lemma install_Complete:
  assumes "install cfg w force s = Complete sm s'"
  obtains latest mf where "get_latest_version w = Inr latest"
    and "find_mrpack (files latest) = Some mf"
    and "sync_archive cfg w latest mf s = Complete sm s'"
  using assms
  by (auto simp: install_def full_sync_def split: sum.splits option.splits if_splits)

lemma install_Complete_marker:
  assumes "install cfg w force s = Complete sm s'"
  shows "\<exists>latest. get_latest_version w = Inr latest
           \<and> map_of (target s') ''.modpack_version'' = Some (File (version_id latest))"
proof -
  from assms obtain latest mf where l: "get_latest_version w = Inr latest"
    and a: "sync_archive cfg w latest mf s = Complete sm s'"
    by (rule install_Complete)
  from a obtain inst3 where "save_version (version_id latest) inst3 = Inr (target s')"
    by (rule sync_archive_Complete)
  from save_version_marker[OF this] l show ?thesis by blast
qed

lemma full_sync_commit:
  assumes "find_mrpack (files latest) = Some mf"
    and "open_archive cfg w mf s = Inr (extract_dir, index_files, inst0, log1)"
  shows "full_sync cfg w latest s =
           (case sync_phases cfg w extract_dir index_files (inst0, log1) of
              Inl e \<Rightarrow> Uncaught e
            | Inr (sm, inst3, log2) \<Rightarrow>
                (case map_of inst3 ''.modpack_version'' of
                   Some (Dir x) \<Rightarrow> Uncaught IsADirectoryError
                 | _ \<Rightarrow> Complete sm
                     \<lparr>target = AList.update ''.modpack_version'' (File (version_id latest)) inst3,
                      requests = log2\<rparr>))"
  using assms by (simp add: full_sync_def sync_archive_cases)

lemma sync_archive_Exit:
  assumes "sync_archive cfg w latest mf s = Exit e s'"
  shows "(e = ArchiveDownloadFailed \<or> e = MissingIndex)
         \<and> (\<exists>ok. download_file w (vf_url mf) (archive_dest cfg w (vf_filename mf)) None None
                    (target s, requests s) = Inr (ok, target s', requests s'))"
proof (cases "open_archive cfg w mf s")
  case (Inl r)
  with assms have "r = Exit e s'" by (simp add: sync_archive_def)
  with open_archive_Inl[OF Inl] show ?thesis by auto
next
  case (Inr x)
  with assms show ?thesis
    by (auto simp: sync_archive_def split: prod.splits sum.splits)
qed

lemma sync_archive_Exit_outside:
  assumes "sync_archive cfg w latest mf s = Exit e s'"
    and "archive_dest cfg w (vf_filename mf) = Outside b"
  shows "target s' = target s"
proof -
  from sync_archive_Exit[OF assms(1)] assms(2) obtain ok where
    "download_file w (vf_url mf) (Outside b) None None (target s, requests s)
       = Inr (ok, target s', requests s')"
    by auto
  then show ?thesis by (rule download_file_outside)
qed

lemma install_Exit_outside:
  assumes "install cfg w force s = Exit e s'" and "archive_outside cfg w"
  shows "target s' = target s"
proof (cases "get_latest_version w")
  case (Inl e')
  with assms(1) show ?thesis by (simp add: install_def)
next
  case (Inr latest)
  with assms(1) have f: "full_sync cfg w latest s = Exit e s'"
    by (auto simp: install_def split: sum.splits if_splits)
  show ?thesis
  proof (cases "find_mrpack (files latest)")
    case None
    with f show ?thesis by (simp add: full_sync_def)
  next
    case (Some mf)
    with f have a: "sync_archive cfg w latest mf s = Exit e s'"
      by (simp add: full_sync_def)
    from assms(2) Inr Some obtain b where "archive_dest cfg w (vf_filename mf) = Outside b"
      by (auto simp: archive_outside_def split: dest.splits)
    from sync_archive_Exit_outside[OF a this] show ?thesis .
  qed
qed

lemma install_summary_counts:
  assumes "install cfg w force s = Complete sm s'"
  shows "\<exists>index_files tasks sc so.
           process_files cfg index_files [] 0 0 = Inr (tasks, sc, so)
           \<and> downloaded sm + failed_downloads sm = length tasks
           \<and> length (filter (sha512_mismatch w) tasks) \<le> failed_downloads sm"
proof -
  from assms obtain latest mf where
    a: "sync_archive cfg w latest mf s = Complete sm s'"
    by (rule install_Complete)
  from a obtain extract_dir index_files inst0 log1 inst3 where
    p: "sync_phases cfg w extract_dir index_files (inst0, log1) = Inr (sm, inst3, requests s')"
    by (rule sync_archive_Complete)
  from p obtain tasks sc so ms dn fl ms' where
    pf: "process_files cfg index_files [] 0 0 = Inr (tasks, sc, so)"
    and db: "download_batch w tasks (ms, log1) 0 0 = Inr (dn, fl, ms', requests s')"
    and d: "downloaded sm = dn" and f: "failed_downloads sm = fl"
    by (rule sync_phases_steps)
  from download_batch_count[OF db] d f
  have c: "downloaded sm + failed_downloads sm = length tasks"
    by simp
  from download_batch_counts_mismatches[OF db] f
  have "length (filter (sha512_mismatch w) tasks) \<le> failed_downloads sm"
    by simp
  with pf c show ?thesis by blast
qed

text \<open>
  Claim C6. The marker is written as the last step of a run, after the download and
  merge phases and whatever the number of failed downloads (\<open>full_sync_commit\<close>,
  \<open>install_Complete_marker\<close>), and a fatal exit leaves the marker as it was. The latter
  holds when the archive's file name leads to a place outside the instance directory
  (\<open>install_Exit_outside\<close>). The code joins the file name that the registry gives to
  the temporary directory without a check, although its comment says that the archive
  is downloaded to the temporary directory: here the name is absolute and leads below
  the marker's path in an instance that has no marker. The download makes a directory
  where the marker belongs, the archive has no index, and the run ends in the fatal
  exit for the missing index with the marker's path changed: the next run cannot read
  the installed version.
\<close>

theorem fatal_exit_changes_marker:
  "install example_cfg
     (example_world
        \<lparr>versions :=
           Some [\<lparr>version_id = ''v3'', version_number = ''2.0.0'',
                  files = [\<lparr>vf_filename = ''/srv/minecraft/.modpack_version/x.mrpack'',
                            vf_url = ''https://cdn/evil.mrpack''\<rparr>]\<rparr>],
         fetch := map_of [(''https://cdn/evil.mrpack'', ''EMPTY'')],
         unzip := (\<lambda>name archive. Some [])\<rparr>)
     False \<lparr>target = [(''mods'', Dir [(''old.jar'', File ''o'')])], requests = []\<rparr>
   = Exit MissingIndex
       \<lparr>target = [(''mods'', Dir [(''old.jar'', File ''o'')]),
                  (''.modpack_version'', Dir [(''x.mrpack'', File ''EMPTY'')])],
        requests = [''https://cdn/evil.mrpack'']\<rparr>
   \<and> get_installed_version [(''mods'', Dir [(''old.jar'', File ''o'')])] = Inr None
   \<and> get_installed_version
         [(''mods'', Dir [(''old.jar'', File ''o'')]),
          (''.modpack_version'', Dir [(''x.mrpack'', File ''EMPTY'')])]
       = Inl IsADirectoryError"
  by code_simp

text \<open>
  Claim C9. Without force, when the stored version is the identifier of the latest
  version, \<open>install\<close> (and so the commands \<open>install\<close> and \<open>update\<close>) returns at once
  with the state unchanged: no file is touched and nothing is requested. With force
  (the command \<open>force-update\<close>) the run is the full synchronisation, whatever the
  stored version is, and a full synchronisation never ends as already installed.
\<close>

theorem up_to_date_noop:
  assumes "get_latest_version w = Inr latest"
    and "get_installed_version (target s) = Inr installed"
  shows "(installed = Some (version_id latest) \<longrightarrow>
            install cfg w False s = AlreadyInstalled s
            \<and> run_command cfg w CmdInstall s = AlreadyInstalled s
            \<and> run_command cfg w CmdUpdate s = AlreadyInstalled s)
       \<and> install cfg w True s = full_sync cfg w latest s
       \<and> run_command cfg w CmdForceUpdate s = full_sync cfg w latest s
       \<and> (\<forall>r. full_sync cfg w latest s \<noteq> AlreadyInstalled r)"
proof -
  have "full_sync cfg w latest s \<noteq> AlreadyInstalled r" for r
    by (cases "find_mrpack (files latest)")
       (simp_all add: full_sync_def sync_archive_not_AlreadyInstalled)
  with assms show ?thesis
    by (simp add: install_def)
qed

theorem up_to_date_noop_witness:
  "get_latest_version example_world =
     Inr \<lparr>version_id = ''v2'', version_number = ''1.1.0'',
          files = [\<lparr>vf_filename = ''notes.txt'', vf_url = ''https://cdn/notes.txt''\<rparr>,
                   \<lparr>vf_filename = ''pack.mrpack'', vf_url = ''https://cdn/pack.mrpack''\<rparr>]\<rparr>
   \<and> get_installed_version
        [(''.modpack_version'', File (''v2'' @ [CHR 0x0A])), (''mods'', Dir [(''old.jar'', File ''o'')])]
       = Inr (Some ''v2'')
   \<and> install example_cfg example_world False
        \<lparr>target = [(''.modpack_version'', File (''v2'' @ [CHR 0x0A])),
                   (''mods'', Dir [(''old.jar'', File ''o'')])],
         requests = []\<rparr>
       = AlreadyInstalled
           \<lparr>target = [(''.modpack_version'', File (''v2'' @ [CHR 0x0A])),
                      (''mods'', Dir [(''old.jar'', File ''o'')])],
            requests = []\<rparr>
   \<and> install example_cfg example_world True
        \<lparr>target = [(''.modpack_version'', File (''v2'' @ [CHR 0x0A])),
                   (''mods'', Dir [(''old.jar'', File ''o'')])],
         requests = []\<rparr>
       = Complete
           \<lparr>downloaded = 1, from_overrides = 1, skipped_client_only = 2,
            skipped_other_files = 1, failed_downloads = 1\<rparr>
           \<lparr>target = [(''.modpack_version'', File ''v2''),
                      (''mods'', Dir [(''a.jar'', File ''aaaa''), (''extra.jar'', File ''ee'')]),
                      (''config'', Dir [(''settings.txt'', File ''new'')])],
            requests = [''https://cdn/pack.mrpack'', ''https://cdn/a.jar'', ''https://cdn/b.jar'']\<rparr>"
proof -
  let ?latest = "\<lparr>version_id = ''v2'', version_number = ''1.1.0'',
          files = [\<lparr>vf_filename = ''notes.txt'', vf_url = ''https://cdn/notes.txt''\<rparr>,
                   \<lparr>vf_filename = ''pack.mrpack'', vf_url = ''https://cdn/pack.mrpack''\<rparr>]\<rparr>"
  let ?s = "\<lparr>target = [(''.modpack_version'', File (''v2'' @ [CHR 0x0A])),
                   (''mods'', Dir [(''old.jar'', File ''o'')])],
         requests = []\<rparr>"
  let ?r = "Complete
           \<lparr>downloaded = 1, from_overrides = 1, skipped_client_only = 2,
            skipped_other_files = 1, failed_downloads = 1\<rparr>
           \<lparr>target = [(''.modpack_version'', File ''v2''),
                      (''mods'', Dir [(''a.jar'', File ''aaaa''), (''extra.jar'', File ''ee'')]),
                      (''config'', Dir [(''settings.txt'', File ''new'')])],
            requests = [''https://cdn/pack.mrpack'', ''https://cdn/a.jar'', ''https://cdn/b.jar'']\<rparr>"
  have l: "get_latest_version example_world = Inr ?latest"
    by (simp add: get_latest_version_def example_world_def)
  have i: "get_installed_version (target ?s) = Inr (Some ''v2'')"
    by code_simp
  have f: "full_sync example_cfg example_world ?latest ?s = ?r"
    by code_simp
  note t = up_to_date_noop[OF l i, where cfg = example_cfg]
  from t have a: "install example_cfg example_world False ?s = AlreadyInstalled ?s"
    by simp
  from t f have b: "install example_cfg example_world True ?s = ?r"
    by simp
  from i have i': "get_installed_version
        [(''.modpack_version'', File (''v2'' @ [CHR 0x0A])), (''mods'', Dir [(''old.jar'', File ''o'')])]
       = Inr (Some ''v2'')"
    by simp
  from l i' a b show ?thesis
    by blast
qed

section \<open>Filtering symmetry\<close>

lemma not_client_only_pattern:
  "\<not> is_client_only cfg name e \<Longrightarrow> \<not> pattern_loop (client_only_mods cfg) (lower name)"
  by (auto simp: is_client_only_def split: if_splits)

lemma process_files_no_client:
  "process_files cfg es acc sc so = Inr (tasks, sc', so') \<Longrightarrow>
   \<forall>t \<in> set acc. \<not> pattern_loop (client_only_mods cfg) (lower (fst (snd t))) \<Longrightarrow>
   \<forall>t \<in> set tasks. \<not> pattern_loop (client_only_mods cfg) (lower (fst (snd t)))"
proof (induction es arbitrary: acc sc so)
  case Nil
  then show ?case by simp
next
  case (Cons e es)
  from Cons.prems(1) obtain file_path where p: "path e = Some file_path"
    by (cases "path e") auto
  show ?case
  proof (cases "prefix ''mods/'' file_path")
    case False
    with Cons.prems(1) p have "process_files cfg es acc sc (so + 1) = Inr (tasks, sc', so')"
      by simp
    from Cons.IH[OF this Cons.prems(2)] show ?thesis .
  next
    case True
    let ?e = "Some (case entry_env e of None \<Rightarrow> [] | Some x \<Rightarrow> x)"
    show ?thesis
    proof (cases "is_client_only cfg (path_name file_path) ?e")
      case c: True
      with Cons.prems(1) p True
      have "process_files cfg es acc (sc + 1) so = Inr (tasks, sc', so')"
        by simp
      from Cons.IH[OF this Cons.prems(2)] show ?thesis .
    next
      case c: False
      with Cons.prems(1) p True obtain u us where
        d: "downloads e = Some (u # us)"
        by (auto split: option.splits list.splits)
      let ?t = "(u, path_name file_path, fileSize e,
                 (case hashes e of None \<Rightarrow> [] | Some h \<Rightarrow> h))"
      from Cons.prems(1) p True c d
      have r: "process_files cfg es (acc @ [?t]) sc so = Inr (tasks, sc', so')"
        by simp
      from not_client_only_pattern[OF c] Cons.prems(2)
      have "\<forall>t \<in> set (acc @ [?t]). \<not> pattern_loop (client_only_mods cfg) (lower (fst (snd t)))"
        by simp
      from Cons.IH[OF r this] show ?thesis .
    qed
  qed
qed

lemma mods_entry_eq:
  "map_of inst' ''mods'' = map_of inst ''mods'' \<Longrightarrow> mods_entry inst' name = mods_entry inst name"
  by (simp add: mods_entry_def)

lemma copy_to_mods_frame:
  assumes "copy_to_mods data n inst = Inr inst'" and "name \<noteq> n"
  shows "mods_entry inst' name = mods_entry inst name"
proof -
  from assms(1) obtain ms ms' where t: "map_of inst ''mods'' = Some (Dir ms)"
    and c: "copy2 data n ms = Inr ms'"
    and i: "inst' = AList.update ''mods'' (Dir ms') inst"
    by (auto simp: copy_to_mods_def split: option.splits node.splits sum.splits)
  from i have "mods_entry inst' name = map_of ms' name"
    by (simp add: mods_entry_def update_conv')
  also from copy2_other[OF c assms(2)] have "\<dots> = map_of ms name" .
  also from t have "\<dots> = mods_entry inst name"
    by (simp add: mods_entry_def)
  finally show ?thesis .
qed

lemma copy_override_mods_frame:
  "copy_override_mods cfg es inst om os = Inr (inst', om', os') \<Longrightarrow>
   pattern_loop (client_only_mods cfg) (lower name) \<Longrightarrow>
   mods_entry inst' name = mods_entry inst name"
proof (induction es arbitrary: inst om os)
  case Nil
  then show ?case by simp
next
  case (Cons e es)
  obtain n mod_file where e: "e = (n, mod_file)" by (cases e) auto
  show ?case
  proof (cases mod_file)
    case (Dir x)
    with Cons.prems(1) e have "copy_override_mods cfg es inst om os = Inr (inst', om', os')"
      by simp
    from Cons.IH[OF this Cons.prems(2)] show ?thesis .
  next
    case (File data)
    show ?thesis
    proof (cases "path_suffix n \<noteq> ''.jar''")
      case True
      with Cons.prems(1) e File
      have "copy_override_mods cfg es inst om os = Inr (inst', om', os')"
        by simp
      from Cons.IH[OF this Cons.prems(2)] show ?thesis .
    next
      case j: False
      show ?thesis
      proof (cases "is_client_only cfg n None")
        case True
        with Cons.prems(1) e File j
        have "copy_override_mods cfg es inst om (os + 1) = Inr (inst', om', os')" by simp
        from Cons.IH[OF this Cons.prems(2)] show ?thesis .
      next
        case False
        with Cons.prems(1) e File j obtain inst1 where
          c: "copy_to_mods data n inst = Inr inst1"
          and r: "copy_override_mods cfg es inst1 (om + 1) os = Inr (inst', om', os')"
          by (auto split: sum.splits)
        from not_client_only_pattern[OF False] Cons.prems(2) have "name \<noteq> n" by auto
        from copy_to_mods_frame[OF c this] Cons.IH[OF r Cons.prems(2)] show ?thesis by simp
      qed
    qed
  qed
qed

lemma merge_root_mods_entry:
  assumes "merge_root cfg override_src (inst, om, os) = Inr (inst', om', os')"
    and "pattern_loop (client_only_mods cfg) (lower name)"
  shows "mods_entry inst' name = mods_entry inst name"
proof (cases override_src)
  case None
  with assms(1) show ?thesis by (simp add: merge_root_def)
next
  case (Some src)
  show ?thesis
  proof (cases src)
    case (File x)
    with assms(1) Some show ?thesis by (simp add: merge_root_def)
  next
    case (Dir items)
    from assms(1) Some Dir obtain inst1 om1 os1 where
      c: "(case map_of items ''mods'' of
             None \<Rightarrow> Inr (inst, om, os)
           | Some (File x) \<Rightarrow> Inl NotADirectoryError
           | Some (Dir mod_files) \<Rightarrow> copy_override_mods cfg mod_files inst om os)
          = Inr (inst1, om1, os1)"
      and i: "merge_items items inst1 = Inr inst'"
      by (auto simp: merge_root_def split: sum.splits)
    from merge_items_other[OF i, of "''mods''"]
    have "map_of inst' ''mods'' = map_of inst1 ''mods''" by simp
    then have a: "mods_entry inst' name = mods_entry inst1 name"
      by (rule mods_entry_eq)
    have "mods_entry inst1 name = mods_entry inst name"
    proof (cases "map_of items ''mods''")
      case None
      with c show ?thesis by simp
    next
      case m: (Some mods_node)
      with c obtain mod_files where
        "copy_override_mods cfg mod_files inst om os = Inr (inst1, om1, os1)"
        by (cases mods_node) simp_all
      from copy_override_mods_frame[OF this assms(2)] show ?thesis .
    qed
    with a show ?thesis by simp
  qed
qed

lemma merge_overrides_mods_entry:
  assumes "merge_overrides cfg extract_dir inst = Inr (inst', om', os')"
    and "pattern_loop (client_only_mods cfg) (lower name)"
  shows "mods_entry inst' name = mods_entry inst name"
proof -
  from assms(1) obtain inst1 om1 os1 where
    a: "merge_root cfg (map_of extract_dir ''overrides'') (inst, 0, 0) = Inr (inst1, om1, os1)"
    and b: "merge_root cfg (map_of extract_dir ''server-overrides'') (inst1, om1, os1)
              = Inr (inst', om', os')"
    by (auto simp: merge_overrides_def split: sum.splits)
  from merge_root_mods_entry[OF a assms(2)] merge_root_mods_entry[OF b assms(2)]
  show ?thesis by simp
qed

lemma download_file_frame:
  "download_file w u (Below [] n) sz hs (d, log) = Inr (ok, d', log') \<Longrightarrow> name \<noteq> n \<Longrightarrow>
   map_of d' name = map_of d name"
  by (auto simp: download_file_def persist_def write_bytes_def update_conv'
           split: option.splits if_splits node.splits)

lemma download_batch_frame:
  "download_batch w tasks (d, log) dn fl = Inr (dn', fl', d', log') \<Longrightarrow>
   name \<notin> (\<lambda>t. fst (snd t)) ` set tasks \<Longrightarrow>
   map_of d' name = map_of d name"
proof (induction tasks arbitrary: d log dn fl)
  case Nil
  then show ?case by simp
next
  case (Cons t tasks)
  obtain u n sz hs where t: "t = (u, n, sz, hs)" by (cases t) auto
  from Cons.prems(2) t have nn: "name \<noteq> n"
    and rest: "name \<notin> (\<lambda>t. fst (snd t)) ` set tasks" by auto
  from Cons.prems(1)
  have "download_batch w ((u, n, sz, hs) # tasks) (d, log) dn fl = Inr (dn', fl', d', log')"
    unfolding t .
  from download_batch_step[OF this] obtain ok d1 where
    f: "download_file w u (Below [] n) sz (Some hs) (d, log) = Inr (ok, d1, log @ [u])"
    and r: "download_batch w tasks (d1, log @ [u]) (if ok then dn + 1 else dn)
          (if ok then fl else fl + 1) = Inr (dn', fl', d', log')"
    by blast
  from Cons.IH[OF r rest] download_file_frame[OF f nn] show ?case by simp
qed

lemma clean_loop_entry:
  "map_of (clean_loop cfg keep es d) name = None
   \<or> map_of (clean_loop cfg keep es d) name = map_of d name"
  by (simp add: clean_loop_map_of)

lemma clean_mods_entry:
  assumes "clean_mods cfg keep inst = Inr inst'"
  shows "mods_entry inst' name = None \<or> mods_entry inst' name = mods_entry inst name"
proof (cases "map_of inst ''mods''")
  case None
  with assms show ?thesis by (simp add: clean_mods_def)
next
  case (Some nd)
  show ?thesis
  proof (cases nd)
    case (File x)
    with assms Some show ?thesis by (simp add: clean_mods_def)
  next
    case (Dir ms)
    with assms Some
    have "inst' = AList.update ''mods'' (Dir (clean_loop cfg keep ms ms)) inst"
      by (simp add: clean_mods_def)
    then have "mods_entry inst' name = map_of (clean_loop cfg keep ms ms) name"
      by (simp add: mods_entry_def update_conv')
    moreover from Some Dir have "mods_entry inst name = map_of ms name"
      by (simp add: mods_entry_def)
    ultimately show ?thesis
      using clean_loop_entry[of cfg keep ms ms name] by simp
  qed
qed

lemma mkdir_mods_entry:
  "mkdir_mods inst = Inr inst' \<Longrightarrow> mods_entry inst' name = mods_entry inst name"
  by (auto simp: mkdir_mods_def mods_entry_def update_conv' split: option.splits node.splits)

lemma save_version_mods_entry:
  "save_version vid inst = Inr inst' \<Longrightarrow> mods_entry inst' name = mods_entry inst name"
  by (auto simp: save_version_def mods_entry_def update_conv' split: option.splits node.splits)

lemma sync_phases_client_only_frame:
  assumes "sync_phases cfg w extract_dir index_files (inst0, log1) = Inr (sm, inst3, log2)"
    and "pattern_loop (client_only_mods cfg) (lower name)"
  shows "mods_entry inst3 name = None \<or> mods_entry inst3 name = mods_entry inst0 name"
proof -
  from assms(1) obtain inst1 inst2 tasks sc so ms dn fl ms' om os
    where mk: "mkdir_mods inst0 = Inr inst1"
    and cl: "clean_mods cfg True inst1 = Inr inst2"
    and pf: "process_files cfg index_files [] 0 0 = Inr (tasks, sc, so)"
    and mo: "map_of inst2 ''mods'' = Some (Dir ms)"
    and db: "download_batch w tasks (ms, log1) 0 0 = Inr (dn, fl, ms', log2)"
    and mg: "merge_overrides cfg extract_dir (AList.update ''mods'' (Dir ms') inst2) = Inr (inst3, om, os)"
    by (rule sync_phases_steps)
  from process_files_no_client[OF pf] assms(2)
  have "name \<notin> (\<lambda>t. fst (snd t)) ` set tasks" by auto
  from download_batch_frame[OF db this] have b: "map_of ms' name = map_of ms name" .
  have "mods_entry inst3 name = mods_entry (AList.update ''mods'' (Dir ms') inst2) name"
    by (rule merge_overrides_mods_entry[OF mg assms(2)])
  also have "\<dots> = map_of ms' name"
    by (simp add: mods_entry_def update_conv')
  also from b mo have "\<dots> = mods_entry inst2 name"
    by (simp add: mods_entry_def)
  finally have e: "mods_entry inst3 name = mods_entry inst2 name" .
  from clean_mods_entry[OF cl, of name] mkdir_mods_entry[OF mk, of name] e
  show ?thesis by auto
qed

lemma install_client_only_frame:
  assumes "install cfg w force s = Complete sm s'"
    and "archive_outside cfg w"
    and "pattern_loop (client_only_mods cfg) (lower name)"
  shows "mods_entry (target s') name = None
         \<or> mods_entry (target s') name = mods_entry (target s) name"
proof -
  from assms(1) obtain latest mf where l: "get_latest_version w = Inr latest"
    and m: "find_mrpack (files latest) = Some mf"
    and a: "sync_archive cfg w latest mf s = Complete sm s'"
    by (rule install_Complete)
  from a obtain extract_dir index_files inst0 log1 inst3 where
    oa: "open_archive cfg w mf s = Inr (extract_dir, index_files, inst0, log1)"
    and ph: "sync_phases cfg w extract_dir index_files (inst0, log1) = Inr (sm, inst3, requests s')"
    and sv: "save_version (version_id latest) inst3 = Inr (target s')"
    by (rule sync_archive_Complete)
  from assms(2) l m obtain b where "archive_dest cfg w (vf_filename mf) = Outside b"
    by (auto simp: archive_outside_def split: dest.splits)
  with open_archive_Inr[OF oa] have i: "inst0 = target s"
    by (auto dest: download_file_outside)
  have "mods_entry (target s') name = mods_entry inst3 name"
    by (rule save_version_mods_entry[OF sv])
  with sync_phases_client_only_frame[OF ph assms(3)] i show ?thesis by simp
qed

text \<open>
  Claim C1. A file name that contains, ignoring case, a configured client-only pattern
  is never installed, from either source: no task of the download queue has that name,
  and the merge of an override root (and so of both roots) leaves the entry of that
  name in the target mods directory as it was. Both paths decide with
  \<open>is_client_only\<close> on the file name. So the phases of a sync leave a file of that name
  in the mods directory only if it was there before them, and so does a complete
  install whose archive is written outside the instance directory.
\<close>

theorem filtering_symmetry:
  assumes "p \<in> set (client_only_mods cfg)" and "sublist (lower p) (lower filename)"
  shows "(process_files cfg index_files [] 0 0 = Inr (tasks, sc, so) \<longrightarrow>
            filename \<notin> (\<lambda>t. fst (snd t)) ` set tasks)
       \<and> (merge_root cfg override_src (inst, om, os) = Inr (inst', om', os') \<longrightarrow>
            mods_entry inst' filename = mods_entry inst filename)
       \<and> (merge_overrides cfg extract_dir inst = Inr (inst'', om'', os'') \<longrightarrow>
            mods_entry inst'' filename = mods_entry inst filename)
       \<and> (sync_phases cfg w extract_dir index_files (inst, log) = Inr (sm, inst3, log') \<longrightarrow>
            mods_entry inst3 filename = None
            \<or> mods_entry inst3 filename = mods_entry inst filename)
       \<and> (archive_outside cfg w \<and> install cfg w force s = Complete sm s' \<longrightarrow>
            mods_entry (target s') filename = None
            \<or> mods_entry (target s') filename = mods_entry (target s) filename)"
proof -
  from assms have m: "pattern_loop (client_only_mods cfg) (lower filename)"
    by (auto simp: pattern_loop_iff)
  show ?thesis
  proof (intro conjI impI)
    assume "process_files cfg index_files [] 0 0 = Inr (tasks, sc, so)"
    from process_files_no_client[OF this] m
    show "filename \<notin> (\<lambda>t. fst (snd t)) ` set tasks"
      by auto
  next
    assume "merge_root cfg override_src (inst, om, os) = Inr (inst', om', os')"
    from merge_root_mods_entry[OF this m]
    show "mods_entry inst' filename = mods_entry inst filename" .
  next
    assume "merge_overrides cfg extract_dir inst = Inr (inst'', om'', os'')"
    from merge_overrides_mods_entry[OF this m]
    show "mods_entry inst'' filename = mods_entry inst filename" .
  next
    assume "sync_phases cfg w extract_dir index_files (inst, log) = Inr (sm, inst3, log')"
    from sync_phases_client_only_frame[OF this m]
    show "mods_entry inst3 filename = None
            \<or> mods_entry inst3 filename = mods_entry inst filename" .
  next
    assume "archive_outside cfg w \<and> install cfg w force s = Complete sm s'"
    then have o: "archive_outside cfg w" and c: "install cfg w force s = Complete sm s'"
      by simp_all
    from install_client_only_frame[OF c o m]
    show "mods_entry (target s') filename = None
            \<or> mods_entry (target s') filename = mods_entry (target s) filename" .
  qed
qed


theorem filtering_symmetry_witness:
  "''Sodium'' \<in> set (client_only_mods example_cfg)
   \<and> sublist (lower ''Sodium'') (lower ''Sodium-1.0.jar'')
   \<and> process_files example_cfg example_index [] 0 0 =
        Inr ([(''https://cdn/a.jar'', ''a.jar'', Some 4,
                [(''sha1'', ''h1:aaaa''), (''sha512'', ''h512:aaaa'')]),
              (''https://cdn/b.jar'', ''b.jar'', Some 2,
                [(''sha1'', ''h1:bb''), (''sha512'', ''h512:other'')])], 1, 1)
   \<and> ''Sodium-1.0.jar'' \<notin> (\<lambda>t. fst (snd t)) `
        set [(''https://cdn/a.jar'', ''a.jar'', Some 4,
                [(''sha1'', ''h1:aaaa''), (''sha512'', ''h512:aaaa'')]),
             (''https://cdn/b.jar'', ''b.jar'', Some (2::int),
                [(''sha1'', ''h1:bb''), (''sha512'', ''h512:other'')])]
   \<and> sublist (lower ''Sodium'') (lower ''sodium-extra.jar'')
   \<and> merge_root example_cfg (map_of example_archive ''overrides'') (target example_state, 0, 0) =
        Inr ([(''.modpack_version'', File ''v1''),
              (''mods'', Dir [(''old.jar'', File ''o''), (''MyMod-1.jar'', File ''m''),
                             (''user'', Dir [(''u.jar'', File ''u'')]),
                             (''readme.txt'', File ''r''), (''extra.jar'', File ''ee'')]),
              (''config'', Dir [(''settings.txt'', File ''new'')])], 1, 1)
   \<and> merge_overrides example_cfg example_archive (target example_state) =
        Inr ([(''.modpack_version'', File ''v1''),
              (''mods'', Dir [(''old.jar'', File ''o''), (''MyMod-1.jar'', File ''m''),
                             (''user'', Dir [(''u.jar'', File ''u'')]),
                             (''readme.txt'', File ''r''), (''extra.jar'', File ''ee'')]),
              (''config'', Dir [(''settings.txt'', File ''new'')])], 1, 1)
   \<and> mods_entry
        [(''.modpack_version'', File ''v1''),
         (''mods'', Dir [(''old.jar'', File ''o''), (''MyMod-1.jar'', File ''m''),
                        (''user'', Dir [(''u.jar'', File ''u'')]),
                        (''readme.txt'', File ''r''), (''extra.jar'', File ''ee'')]),
         (''config'', Dir [(''settings.txt'', File ''new'')])] ''sodium-extra.jar''
       = mods_entry (target example_state) ''sodium-extra.jar''
   \<and> archive_outside example_cfg example_world
   \<and> install example_cfg example_world False example_state =
       Complete
         \<lparr>downloaded = 1, from_overrides = 1, skipped_client_only = 2,
          skipped_other_files = 1, failed_downloads = 1\<rparr>
         \<lparr>target =
            [(''.modpack_version'', File ''v2''),
             (''mods'', Dir [(''MyMod-1.jar'', File ''m''), (''user'', Dir [(''u.jar'', File ''u'')]),
                            (''readme.txt'', File ''r''), (''a.jar'', File ''aaaa''),
                            (''extra.jar'', File ''ee'')]),
             (''config'', Dir [(''settings.txt'', File ''new'')])],
          requests = [''https://cdn/pack.mrpack'', ''https://cdn/a.jar'', ''https://cdn/b.jar'']\<rparr>
   \<and> mods_entry
        [(''.modpack_version'', File ''v2''),
         (''mods'', Dir [(''MyMod-1.jar'', File ''m''), (''user'', Dir [(''u.jar'', File ''u'')]),
                        (''readme.txt'', File ''r''), (''a.jar'', File ''aaaa''),
                        (''extra.jar'', File ''ee'')]),
         (''config'', Dir [(''settings.txt'', File ''new'')])] ''Sodium-1.0.jar'' = None"
proof -
  let ?sm = "\<lparr>downloaded = 1, from_overrides = 1, skipped_client_only = 2,
          skipped_other_files = 1, failed_downloads = 1\<rparr>"
  let ?t = "[(''.modpack_version'', File ''v2''),
         (''mods'', Dir [(''MyMod-1.jar'', File ''m''), (''user'', Dir [(''u.jar'', File ''u'')]),
                        (''readme.txt'', File ''r''), (''a.jar'', File ''aaaa''),
                        (''extra.jar'', File ''ee'')]),
         (''config'', Dir [(''settings.txt'', File ''new'')])]"
  let ?s' = "\<lparr>target = ?t,
          requests = [''https://cdn/pack.mrpack'', ''https://cdn/a.jar'', ''https://cdn/b.jar'']\<rparr>"
  have c: "install example_cfg example_world False example_state = Complete ?sm ?s'"
    by code_simp
  have z: "mods_entry (target example_state) ''Sodium-1.0.jar'' = None"
    by (simp add: mods_entry_def example_state_def)
  have o: "archive_outside example_cfg example_world"
    by code_simp
  let ?tasks = "[(''https://cdn/a.jar'', ''a.jar'', Some (4::int),
                   [(''sha1'', ''h1:aaaa''), (''sha512'', ''h512:aaaa'')]),
                 (''https://cdn/b.jar'', ''b.jar'', Some 2,
                   [(''sha1'', ''h1:bb''), (''sha512'', ''h512:other'')])]"
  let ?inst1 = "[(''.modpack_version'', File ''v1''),
         (''mods'', Dir [(''old.jar'', File ''o''), (''MyMod-1.jar'', File ''m''),
                        (''user'', Dir [(''u.jar'', File ''u'')]),
                        (''readme.txt'', File ''r''), (''extra.jar'', File ''ee'')]),
         (''config'', Dir [(''settings.txt'', File ''new'')])]"
  have p: "''Sodium'' \<in> set (client_only_mods example_cfg)"
    by (simp add: example_cfg_def)
  have s1: "sublist (lower ''Sodium'') (lower ''Sodium-1.0.jar'')"
    by code_simp
  have s2: "sublist (lower ''Sodium'') (lower ''sodium-extra.jar'')"
    by code_simp
  have f: "process_files example_cfg example_index [] 0 0 = Inr (?tasks, 1, 1)"
    by code_simp
  have r: "merge_root example_cfg (map_of example_archive ''overrides'')
             (target example_state, 0, 0) = Inr (?inst1, 1, 1)"
    by code_simp
  have m: "merge_overrides example_cfg example_archive (target example_state) = Inr (?inst1, 1, 1)"
    by code_simp
  from filtering_symmetry[OF p s1, where index_files = example_index and tasks = ?tasks
      and sc = 1 and so = 1] f
  have a: "''Sodium-1.0.jar'' \<notin> (\<lambda>t. fst (snd t)) ` set ?tasks"
    by blast
  from filtering_symmetry[OF p s2, where override_src = "map_of example_archive ''overrides''"
      and inst = "target example_state" and om = 0 and os = 0 and inst' = ?inst1
      and om' = 1 and os' = 1] r
  have b: "mods_entry ?inst1 ''sodium-extra.jar'' = mods_entry (target example_state) ''sodium-extra.jar''"
    by blast
  from filtering_symmetry[OF p s1, where w = example_world and force = False
      and s = example_state and sm = ?sm and s' = ?s'] o c z
  have e: "mods_entry ?t ''Sodium-1.0.jar'' = None"
    by auto
  from p s1 f a s2 r m b o c e show ?thesis
    by blast
qed

end
